theory Spec2Isabelle
  imports Main "HOL-Library.Sublist"
begin

section \<open>Errors\<close>

text \<open>
  Every exception of the TypeScript source is a value of \<open>error\<close>; a function that can
  throw returns \<open>error + 'a\<close>, with \<open>Inl\<close> for the exception.
  \<^item> \<open>OneRowError\<close>: thrown by the SQL cursor's \<open>one()\<close> when the query result does not
    consist of exactly one row (used by \<open>getAddress\<close> in \<open>store-do.ts\<close>).
  \<^item> \<open>InvalidAddress s\<close>: thrown by \<open>new Address(s)\<close> for a string that is not an address.
  \<^item> \<open>External msg\<close>: any exception raised by a collaborator outside the repository
    (ledger RPC, transaction SDK, signer, relay, JSON parser); the payload is opaque.
\<close>

datatype error = OneRowError | InvalidAddress string | External string

section \<open>The per-user store (store-do.ts)\<close>

text \<open>
  Both tables declare every column as \<^verbatim>\<open>STRING\<close>. SQLite gives such a column NUMERIC
  affinity: a text that is a well-formed number is stored as that number, and a text
  compared with the column is converted the same way first. So a column holds values,
  not the strings it was handed:
  \<^item> \<open>SqlText s\<close>: a text, kept as it is;
  \<^item> \<open>SqlInteger i\<close>: an integer;
  \<^item> \<open>SqlReal r\<close>: a floating-point number, named by its shortest decimal text.

  The conversion belongs to the SQL engine; it is the parameter \<open>aff\<close> of the store
  operations below. Two strings are the same key for the store exactly when \<open>aff\<close>
  gives them the same value. JavaScript reads a text back as a string and a number back
  as a number.
\<close>

datatype sql_value = SqlText string | SqlInteger int | SqlReal string

type_synonym affinity = "string \<Rightarrow> sql_value"

text \<open>
  The two SQL tables are lists of rows in insertion (rowid) order:
  \<open>addresses(login PRIMARY KEY, address, sk)\<close> and
  \<open>contracts(login, name, address, UNIQUE (login, address))\<close>.
\<close>

type_synonym row = "sql_value \<times> sql_value \<times> sql_value"

record store =
  addresses :: "row list"
  contracts :: "row list"

definition empty_store :: store where
  "empty_store = \<lparr>addresses = [], contracts = []\<rparr>"

text \<open>
  \<open>new Address(s).toString()\<close> belongs to the ledger SDK: it throws for a malformed
  string and otherwise gives the address in its canonical text form. It is a parameter
  \<open>A\<close> of the store operations, of this type.
\<close>

type_synonym address_ctor = "string \<Rightarrow> error + string"

text \<open>\<open>SqlStorageCursor.one()\<close>: the single row of the result, an exception otherwise.\<close>

fun one :: "'a list \<Rightarrow> error + 'a" where
  "one [r] = Inr r"
| "one _ = Inl OneRowError"

text \<open>\<open>INSERT OR IGNORE INTO contracts\<close>: the row is dropped when it would break
  \<open>UNIQUE (login, address)\<close>. The row holds the values after conversion.\<close>

definition insert_or_ignore_contract :: "row \<Rightarrow> row list \<Rightarrow> row list" where
  "insert_or_ignore_contract r rows =
     (case r of (login, name, address) \<Rightarrow>
        if list_ex (\<lambda>(l, n, a). l = login \<and> a = address) rows then rows else rows @ [r])"

text \<open>\<open>INSERT OR IGNORE INTO addresses\<close>: the row is dropped when its \<open>login\<close> (the
  primary key) is already present.\<close>

definition insert_or_ignore_address :: "row \<Rightarrow> row list \<Rightarrow> row list" where
  "insert_or_ignore_address r rows =
     (case r of (login, address, sk) \<Rightarrow>
        if list_ex (\<lambda>(l, a, s). l = login) rows then rows else rows @ [r])"

definition addContract ::
  "address_ctor \<Rightarrow> affinity \<Rightarrow> store \<Rightarrow> string \<Rightarrow> string \<Rightarrow> string \<Rightarrow> error + store" where
  "addContract A aff st login name address =
     (case A address of
        Inl e \<Rightarrow> Inl e
      | Inr contract \<Rightarrow>
          Inr (st\<lparr>contracts :=
                 insert_or_ignore_contract (aff login, aff name, aff contract) (contracts st)\<rparr>))"

definition removeContract ::
  "address_ctor \<Rightarrow> affinity \<Rightarrow> store \<Rightarrow> string \<Rightarrow> string \<Rightarrow> error + store" where
  "removeContract A aff st login address =
     (case A address of
        Inl e \<Rightarrow> Inl e
      | Inr contract \<Rightarrow>
          Inr (st\<lparr>contracts :=
                 filter (\<lambda>(l, n, a). \<not> (l = aff login \<and> a = aff contract)) (contracts st)\<rparr>))"

text \<open>
  \<open>getContracts\<close> has no \<^verbatim>\<open>ORDER BY\<close>. SQLite answers \<^verbatim>\<open>WHERE login = ?1\<close> from
  the index of \<open>UNIQUE (login, address)\<close>, so the rows of one login come in the order of
  their \<open>address\<close>, and in rowid order where the engine sees no difference. The order of
  values is the engine's; it is the parameter \<open>le\<close>. (With \<open>le\<close> always true the rows
  come in insertion order.) The result holds the stored values of \<open>name\<close> and \<open>address\<close>.
\<close>

fun index_insert :: "(sql_value \<Rightarrow> sql_value \<Rightarrow> bool) \<Rightarrow> row \<Rightarrow> row list \<Rightarrow> row list" where
  "index_insert le r [] = [r]"
| "index_insert le r (x # xs) =
     (if le (snd (snd x)) (snd (snd r)) then x # index_insert le r xs else r # x # xs)"

definition index_scan :: "(sql_value \<Rightarrow> sql_value \<Rightarrow> bool) \<Rightarrow> row list \<Rightarrow> row list" where
  "index_scan le rows = foldl (\<lambda>scanned r. index_insert le r scanned) [] rows"

definition getContracts ::
  "affinity \<Rightarrow> (sql_value \<Rightarrow> sql_value \<Rightarrow> bool) \<Rightarrow> store \<Rightarrow> string \<Rightarrow> (sql_value \<times> sql_value) list" where
  "getContracts aff le st login =
     map (\<lambda>(l, n, a). (n, a)) (index_scan le (filter (\<lambda>(l, n, a). l = aff login) (contracts st)))"

text \<open>
  \<open>setAddress\<close>: the third argument of the statement is \<open>Keypair.random().secret()\<close>.
  The random secret is the parameter \<open>fresh_sk\<close>, drawn by the store and not by the
  caller, whose only inputs are \<open>login\<close> and \<open>wallet\<close>.
\<close>

definition setAddress ::
  "address_ctor \<Rightarrow> affinity \<Rightarrow> string \<Rightarrow> store \<Rightarrow> string \<Rightarrow> string \<Rightarrow> error + store" where
  "setAddress A aff fresh_sk st login wallet =
     (case A wallet of
        Inl e \<Rightarrow> Inl e
      | Inr address \<Rightarrow>
          Inr (st\<lparr>addresses :=
                 insert_or_ignore_address (aff login, aff address, aff fresh_sk) (addresses st)\<rparr>))"

text \<open>\<open>getAddress\<close> returns the tuple \<^verbatim>\<open>[address, sk] as [string, string]\<close>, a pair here,
  of the values the row holds. The handlers test such a tuple in two ways: its
  \<open>length\<close>, which is 2, and its truth value, which is true for every array.\<close>

definition getAddress :: "affinity \<Rightarrow> store \<Rightarrow> string \<Rightarrow> error + (sql_value \<times> sql_value)" where
  "getAddress aff st login =
     (case one (filter (\<lambda>(l, a, s). l = aff login) (addresses st)) of
        Inl e \<Rightarrow> Inl e
      | Inr (l, address, sk) \<Rightarrow> Inr (address, sk))"

text \<open>The rows of \<open>addresses\<close> for a user: the result of the query of \<open>getAddress\<close>.\<close>

definition wallet_records :: "affinity \<Rightarrow> store \<Rightarrow> string \<Rightarrow> row list" where
  "wallet_records aff st login = filter (\<lambda>(l, a, s). l = aff login) (addresses st)"

text \<open>The store after a call of one of its operations: the new one when the call
  returned, the old one when it threw (the exception comes before the statement).\<close>

definition store_after :: "store \<Rightarrow> error + store \<Rightarrow> store" where
  "store_after st r = (case r of Inl err \<Rightarrow> st | Inr st' \<Rightarrow> st')"

definition tuple_length :: "sql_value \<times> sql_value \<Rightarrow> nat" where
  "tuple_length address_sk = 2"

definition tuple_truthy :: "sql_value \<times> sql_value \<Rightarrow> bool" where
  "tuple_truthy address_sk = True"

section \<open>Tool identifiers (part_000, lines 81-83)\<close>

text \<open>
  Strings are lists of code units. \<open>is_id_char\<close> is the character class
  \<^verbatim>\<open>[a-zA-Z0-9_-]\<close> of the regular expression in the source.
\<close>

definition is_id_char :: "char \<Rightarrow> bool" where
  "is_id_char c =
     (let n = (of_char c :: nat)
      in (97 \<le> n \<and> n \<le> 122) \<or> (65 \<le> n \<and> n \<le> 90) \<or> (48 \<le> n \<and> n \<le> 57)
         \<or> c = CHR ''_'' \<or> c = CHR ''-'')"

text \<open>\<^verbatim>\<open>s.replace(/[^a-zA-Z0-9_-]/g, '_')\<close>: every code unit outside the class becomes
  an underscore.\<close>

definition replace_non_id :: "string \<Rightarrow> string" where
  "replace_non_id s = map (\<lambda>c. if is_id_char c then c else CHR ''_'') s"

text \<open>\<^verbatim>\<open>s.substring(0, n)\<close>.\<close>

definition substring0 :: "nat \<Rightarrow> string \<Rightarrow> string" where
  "substring0 n s = take n s"

text \<open>\<^verbatim>\<open>s.includes(pat)\<close>: \<open>pat\<close> occurs in \<open>s\<close> at some position.\<close>

fun js_includes :: "string \<Rightarrow> string \<Rightarrow> bool" where
  "js_includes [] pat = (pat = [])"
| "js_includes (c # cs) pat = (prefix pat (c # cs) \<or> js_includes cs pat)"

text \<open>\<^verbatim>\<open>s.replace(pat, rep)\<close> with a string pattern: only the first (leftmost)
  occurrence is replaced.\<close>

fun js_replace :: "string \<Rightarrow> string \<Rightarrow> string \<Rightarrow> string" where
  "js_replace pat rep [] = (if pat = [] then rep else [])"
| "js_replace pat rep (c # cs) =
     (if prefix pat (c # cs) then rep @ drop (length pat) (c # cs)
      else c # js_replace pat rep cs)"

definition toolName :: "string \<Rightarrow> string \<Rightarrow> string" where
  "toolName contract_name func_name =
     (let t0 = contract_name @ '': '' @ func_name;
          t1 = substring0 64 (replace_non_id t0)
      in js_replace ''__'' ''_'' t1)"

section \<open>Contract descriptors and registered tools\<close>

record func_input =
  input_name :: string
  input_doc :: string
  input_type :: string

record func =
  func_name :: string
  func_doc :: string
  func_inputs :: "func_input list"

text \<open>
  The handler closure passed to \<open>server.tool\<close> is kept as data: which handler it is and
  the values it closes over (\<open>contractId\<close> and \<open>func_name\<close> for a synthesized tool).
\<close>

datatype handler =
    InvokeContract sql_value string
  | SetContractAddress
  | GetContractAddresses
  | RemoveContractAddress
  | SetWallet
  | GetWallet
  | DeployToken

text \<open>
  The parameter schema handed to \<open>server.tool\<close> is a JavaScript object: a finite map
  from parameter names to schemas. The schema of an input is kept as its documentation
  and declared type. The order in which an object enumerates its keys is not part of
  the model.
\<close>

record tool =
  tool_name :: string
  tool_doc :: string
  tool_schema :: "string \<rightharpoonup> (string \<times> string)"
  tool_handler :: handler

text \<open>\<^verbatim>\<open>params.set(name, schema)\<close> for each input, then \<^verbatim>\<open>Object.fromEntries(params)\<close>:
  a later input of the same name replaces the earlier one.\<close>

definition params_of :: "func_input list \<Rightarrow> (string \<rightharpoonup> (string \<times> string))" where
  "params_of inputs =
     foldl (\<lambda>params i. params(input_name i \<mapsto> (input_doc i, input_type i))) Map.empty inputs"

section \<open>Collaborators outside the repository\<close>

text \<open>
  An assembled transaction, as far as the handlers read it. Each field is the outcome
  of the read in the source, which may throw:
  \<^item> \<open>isReadCall\<close>: the SDK getter \<^verbatim>\<open>at.isReadCall\<close>;
  \<^item> \<open>needsNonInvokerSigningBy\<close>: the SDK call \<^verbatim>\<open>at.needsNonInvokerSigningBy()\<close>, the
    addresses other than the invoker that still have to sign;
  \<^item> \<open>retval_json\<close>: \<^verbatim>\<open>decode("ScVal", at.simulationData.result.retval.toXDR('base64'))\<close>;
  \<^item> \<open>retval_contractId\<close>:
    \<^verbatim>\<open>StrKey.encodeContract(at.simulationData.result.retval.address().contractId())\<close>.
\<close>

record assembled =
  isReadCall :: "error + bool"
  needsNonInvokerSigningBy :: "error + string list"
  retval_json :: "error + string"
  retval_contractId :: "error + string"

text \<open>The argument object of \<open>Client.deploy\<close> (fungible-pausable-sdk, \<open>dist/index.js\<close>).\<close>

record ctor_args =
  owner :: sql_value
  name :: string
  symbol :: string
  decimals :: int
  initial_supply :: int
  cap :: int

text \<open>
  The environment gives the outcome of every call that leaves the repository:
  the ledger RPC (\<open>getContractWasmByContractId\<close>), the transaction SDK
  (\<open>Client_fromWasm\<close>, \<open>buildWithOp\<close>, \<open>Client_deploy\<close>, \<open>signAuthEntries\<close>,
  \<open>Address_toString\<close>, \<open>publicKey_of_secret\<close> for \<^verbatim>\<open>Keypair.fromSecret(sk).publicKey()\<close>),
  the wallet signer (\<open>wallet_sign\<close>), the relay (\<open>server_send\<close>), the tool server
  (\<open>server_tool_throws\<close>: the exception \<open>server.tool\<close> raises for a tool, given the tools
  registered so far, if any), \<open>JSON.parse\<close>, the random secret that
  \<^verbatim>\<open>Keypair.random().secret()\<close> produces, and the SQL engine and JavaScript runtime:
  \<open>column_affinity\<close> (the conversion of a text for a \<^verbatim>\<open>STRING\<close> column), \<open>value_le\<close>
  (the engine's order of values) and \<open>String_of_number\<close> (the text JavaScript writes for
  a number read back from the store). A contract id, wallet address or secret that
  reaches a collaborator is the value read from the store.
\<close>

record env =
  getContractWasmByContractId :: "sql_value \<Rightarrow> error + string"
  Client_fromWasm :: "string \<Rightarrow> sql_value \<Rightarrow> error + func list"
  server_tool_throws :: "tool list \<Rightarrow> tool \<Rightarrow> error option"
  buildWithOp :: "sql_value \<Rightarrow> string \<Rightarrow> string list \<Rightarrow> error + assembled"
  wallet_sign :: "assembled \<Rightarrow> sql_value \<Rightarrow> sql_value \<Rightarrow> error option"
  server_send :: "assembled \<Rightarrow> error + string"
  JSON_parse :: "string \<Rightarrow> error + string"
  Address_toString :: address_ctor
  publicKey_of_secret :: "sql_value \<Rightarrow> error + string"
  Client_deploy :: "ctor_args \<Rightarrow> error + assembled"
  signAuthEntries :: "assembled \<Rightarrow> error option"
  random_secret :: string
  column_affinity :: affinity
  value_le :: "sql_value \<Rightarrow> sql_value \<Rightarrow> bool"
  String_of_number :: "sql_value \<Rightarrow> string"

text \<open>A value read from the store inside a template literal \<^verbatim>\<open>`${v}`\<close>: a string as it
  is, a number as JavaScript writes it.\<close>

definition js_template :: "env \<Rightarrow> sql_value \<Rightarrow> string" where
  "js_template E v = (case v of SqlText s \<Rightarrow> s | _ \<Rightarrow> String_of_number E v)"

section \<open>Session initialization (part_000, \<open>MyMCP.init\<close>)\<close>

text \<open>The inner loop over \<^verbatim>\<open>contract.spec.funcs()\<close>: a function whose name includes
  \<^verbatim>\<open>"__"\<close> is passed over; for every other one a tool is built and handed to
  \<open>server.tool\<close>, whose exception, if any, leaves the loop.\<close>

definition contract_tool :: "env \<Rightarrow> sql_value \<Rightarrow> sql_value \<Rightarrow> func \<Rightarrow> tool" where
  "contract_tool E contract_name contractId f =
     \<lparr>tool_name = toolName (js_template E contract_name) (func_name f),
      tool_doc = func_doc f,
      tool_schema = params_of (func_inputs f),
      tool_handler = InvokeContract contractId (func_name f)\<rparr>"

fun register_funcs :: "env \<Rightarrow> sql_value \<Rightarrow> sql_value \<Rightarrow> func list \<Rightarrow> tool list \<Rightarrow> error + tool list" where
  "register_funcs E contract_name contractId [] reg = Inr reg"
| "register_funcs E contract_name contractId (f # fs) reg =
     (if js_includes (func_name f) ''__'' then register_funcs E contract_name contractId fs reg
      else
        (let t = contract_tool E contract_name contractId f
         in case server_tool_throws E reg t of
              Some e \<Rightarrow> Inl e
            | None \<Rightarrow> register_funcs E contract_name contractId fs (reg @ [t])))"

text \<open>The outer loop over the tracked contracts: \<^verbatim>\<open>try { wasm = ... } catch { continue }\<close>
  around the fetch only; \<open>Client.fromWasm\<close> is outside the \<open>try\<close>.\<close>

fun register_contracts :: "env \<Rightarrow> (sql_value \<times> sql_value) list \<Rightarrow> tool list \<Rightarrow> error + tool list" where
  "register_contracts E [] reg = Inr reg"
| "register_contracts E ((contract_name, contractId) # cs) reg =
     (case getContractWasmByContractId E contractId of
        Inl e \<Rightarrow> register_contracts E cs reg
      | Inr wasm \<Rightarrow>
          (case Client_fromWasm E wasm contractId of
             Inl e \<Rightarrow> Inl e
           | Inr funcs \<Rightarrow>
               (case register_funcs E contract_name contractId funcs reg of
                  Inl e \<Rightarrow> Inl e
                | Inr reg' \<Rightarrow> register_contracts E cs reg')))"

definition fixed_tools :: "tool list" where
  "fixed_tools =
     [\<lparr>tool_name = ''setContractAddress'', tool_doc = ''Add a new contract address to track'',
       tool_schema = [''name'' \<mapsto> (''The name of the contract'', ''string''),
                      ''address'' \<mapsto> (''The contract address to add'', ''string'')],
       tool_handler = SetContractAddress\<rparr>,
      \<lparr>tool_name = ''getContractAddresses'', tool_doc = ''Get all contract addresses for the user'',
       tool_schema = Map.empty, tool_handler = GetContractAddresses\<rparr>,
      \<lparr>tool_name = ''removeContractAddress'', tool_doc = ''Remove a contract address from the user'',
       tool_schema = [''address'' \<mapsto> (''The contract address to remove'', ''string'')],
       tool_handler = RemoveContractAddress\<rparr>,
      \<lparr>tool_name = ''setWallet'', tool_doc = ''Set your Stellar wallet address'',
       tool_schema = [''wallet'' \<mapsto> (''The wallet address to set'', ''string'')],
       tool_handler = SetWallet\<rparr>,
      \<lparr>tool_name = ''getWallet'', tool_doc = ''Get your Stellar wallet address'',
       tool_schema = Map.empty, tool_handler = GetWallet\<rparr>,
      \<lparr>tool_name = ''deployToken'', tool_doc = ''Deploy a new token contract'',
       tool_schema = [''name'' \<mapsto> (''The name of the token'', ''string''),
                      ''symbol'' \<mapsto> (''The symbol of the token'', ''string''),
                      ''initial_supply'' \<mapsto> (''The initial supply of the token'', ''string''),
                      ''cap'' \<mapsto> (''The cap of the token'', ''string'')],
       tool_handler = DeployToken\<rparr>]"

fun register_tools :: "env \<Rightarrow> tool list \<Rightarrow> tool list \<Rightarrow> error + tool list" where
  "register_tools E [] reg = Inr reg"
| "register_tools E (t # ts) reg =
     (case server_tool_throws E reg t of
        Some e \<Rightarrow> Inl e
      | None \<Rightarrow> register_tools E ts (reg @ [t]))"

definition init :: "env \<Rightarrow> store \<Rightarrow> string \<Rightarrow> error + tool list" where
  "init E st login =
     (case register_contracts E (getContracts (column_affinity E) (value_le E) st login) [] of
        Inl e \<Rightarrow> Inl e
      | Inr reg \<Rightarrow> register_tools E fixed_tools reg)"

section \<open>Tool handlers\<close>

text \<open>
  The \<open>text\<close> of a response envelope \<^verbatim>\<open>{ content: [{ type: "text", text }] }\<close>.
  A string built by the source is \<open>Text\<close>; the results of \<open>JSON.stringify\<close> are kept
  symbolic, one constructor for each call of it in the source:
  \<^item> \<open>Json_error err\<close>: \<^verbatim>\<open>JSON.stringify(err)\<close> in a \<open>catch\<close>;
  \<^item> \<open>Json_call result success\<close>: \<^verbatim>\<open>JSON.stringify({ result: JSON.parse(json), success: res })\<close>;
  \<^item> \<open>Json_contracts cs\<close>: \<^verbatim>\<open>JSON.stringify(contracts)\<close>;
  \<^item> \<open>Json_added address publicKey\<close>: the message, instructions and link of
    \<open>setContractAddress\<close>;
  \<^item> \<open>Json_deployed res contractId\<close>: \<^verbatim>\<open>JSON.stringify({ ...res, contractId })\<close>.
\<close>

datatype content_text =
    Text string
  | Json_error error
  | Json_call string string
  | Json_contracts "(sql_value \<times> sql_value) list"
  | Json_added string string
  | Json_deployed string string

text \<open>What one invocation of a handler gives to the tool server: one envelope, or an
  exception that left the handler.\<close>

datatype outcome = Envelope content_text | Thrown error

text \<open>The calls a handler makes to its collaborators, in the order it makes them. A call
  is recorded when it is made, whether it returns or throws.\<close>

datatype event =
    EvSimulate sql_value string "string list"
  | EvGetAddress string
  | EvSign sql_value sql_value
  | EvDeploy ctor_args
  | EvSignAuthEntries
  | EvSend

type_synonym 'a traced = "(error + 'a) \<times> event list"

definition call :: "event \<Rightarrow> error + 'a \<Rightarrow> 'a traced" where
  "call ev r = (r, [ev])"

definition local :: "error + 'a \<Rightarrow> 'a traced" where
  "local r = (r, [])"

definition throws :: "error option \<Rightarrow> error + unit" where
  "throws r = (case r of Some e \<Rightarrow> Inl e | None \<Rightarrow> Inr ())"

text \<open>Sequencing of awaited steps: an exception ends the sequence.\<close>

definition andThen :: "'a traced \<Rightarrow> ('a \<Rightarrow> 'b traced) \<Rightarrow> 'b traced" where
  "andThen m f =
     (case m of
        (Inl e, tr) \<Rightarrow> (Inl e, tr)
      | (Inr x, tr) \<Rightarrow> (case f x of (r, tr') \<Rightarrow> (r, tr @ tr')))"

text \<open>\<^verbatim>\<open>try { ... return envelope } catch (err) { return { ... JSON.stringify(err) } }\<close>.\<close>

definition try_catch :: "content_text traced \<Rightarrow> outcome \<times> event list" where
  "try_catch m =
     (case m of
        (Inl err, tr) \<Rightarrow> (Envelope (Json_error err), tr)
      | (Inr t, tr) \<Rightarrow> (Envelope t, tr))"

text \<open>A handler without \<open>try\<close>: an exception leaves it.\<close>

definition no_catch :: "error + content_text \<Rightarrow> outcome" where
  "no_catch r = (case r of Inl err \<Rightarrow> Thrown err | Inr t \<Rightarrow> Envelope t)"

text \<open>The handler of a synthesized contract tool (part_000, lines 89-147).\<close>

definition invoke_body :: "env \<Rightarrow> store \<Rightarrow> string \<Rightarrow> sql_value \<Rightarrow> string \<Rightarrow> string list \<Rightarrow> content_text traced" where
  "invoke_body E st login contractId fname args =
     andThen (call (EvSimulate contractId fname args) (buildWithOp E contractId fname args)) (\<lambda>at.
     andThen (local (isReadCall at)) (\<lambda>is_read.
     andThen (local (needsNonInvokerSigningBy at)) (\<lambda>signers.
     andThen (local (retval_json at)) (\<lambda>json.
       if is_read then local (Inr (Text json))
       else
         andThen (call (EvGetAddress login) (getAddress (column_affinity E) st login)) (\<lambda>address_sk.
           (case address_sk of (address, sk) \<Rightarrow>
              andThen (call (EvSign address sk) (throws (wallet_sign E at address sk))) (\<lambda>_.
              andThen (call EvSend (server_send E at)) (\<lambda>res.
              andThen (local (JSON_parse E json)) (\<lambda>result.
                local (Inr (Json_call result res)))))))))))"

definition invoke_handler :: "env \<Rightarrow> store \<Rightarrow> string \<Rightarrow> sql_value \<Rightarrow> string \<Rightarrow> string list \<Rightarrow> outcome \<times> event list" where
  "invoke_handler E st login contractId fname args =
     try_catch (invoke_body E st login contractId fname args)"

text \<open>\<open>setContractAddress\<close> (lines 166-189): no \<open>try\<close>; both store calls are awaited.\<close>

definition setContractAddress_handler :: "env \<Rightarrow> store \<Rightarrow> string \<Rightarrow> string \<Rightarrow> string \<Rightarrow> outcome \<times> store" where
  "setContractAddress_handler E st login nm address =
     (case getAddress (column_affinity E) st login of
        Inl err \<Rightarrow> (Thrown err, st)
      | Inr address_sk \<Rightarrow>
          if \<not> tuple_truthy address_sk then (Envelope (Text ''No wallet address set''), st)
          else
            (case address_sk of (a, sk) \<Rightarrow>
               (case addContract (Address_toString E) (column_affinity E) st login nm address of
                  Inl err \<Rightarrow> (Thrown err, st)
                | Inr st' \<Rightarrow>
                    (case publicKey_of_secret E sk of
                       Inl err \<Rightarrow> (Thrown err, st')
                     | Inr pk \<Rightarrow> (Envelope (Json_added address pk), st')))))"

text \<open>\<open>getContractAddresses\<close> (lines 197-203).\<close>

definition getContractAddresses_handler :: "env \<Rightarrow> store \<Rightarrow> string \<Rightarrow> outcome \<times> store" where
  "getContractAddresses_handler E st login =
     (Envelope (Json_contracts (getContracts (column_affinity E) (value_le E) st login)), st)"

text \<open>\<open>removeContractAddress\<close> and \<open>setWallet\<close> (lines 213-235) call the store without
  \<open>await\<close>: the call is made, its exception, if any, never reaches the handler, and the
  store is as the call leaves it.\<close>

definition removeContractAddress_handler :: "env \<Rightarrow> store \<Rightarrow> string \<Rightarrow> string \<Rightarrow> outcome \<times> store" where
  "removeContractAddress_handler E st login address =
     (Envelope (Text ''Success! Now reload to see your new tools''),
      store_after st (removeContract (Address_toString E) (column_affinity E) st login address))"

definition setWallet_handler :: "env \<Rightarrow> store \<Rightarrow> string \<Rightarrow> string \<Rightarrow> outcome \<times> store" where
  "setWallet_handler E st login wallet =
     (Envelope (Text (''Wallet address set to '' @ wallet)),
      store_after st (setAddress (Address_toString E) (column_affinity E) (random_secret E) st login wallet))"

text \<open>\<open>getWallet\<close> (lines 243-256): no \<open>try\<close>.\<close>

definition getWallet_handler :: "env \<Rightarrow> store \<Rightarrow> string \<Rightarrow> outcome \<times> store" where
  "getWallet_handler E st login =
     (case getAddress (column_affinity E) st login of
        Inl err \<Rightarrow> (Thrown err, st)
      | Inr address_sk \<Rightarrow>
          if tuple_length address_sk \<noteq> 0
          then (case address_sk of (address, sk) \<Rightarrow> (Envelope (Text (''Wallet address is '' @ js_template E address)), st))
          else (Envelope (Text ''No wallet address set''), st))"

text \<open>\<open>deployNewFungiblePausableToken\<close> (part_001, lines 24-61). The keypair that signs
  the authorization entries is the fixed one of the module.\<close>

definition deployNewFungiblePausableToken ::
  "env \<Rightarrow> sql_value \<Rightarrow> string \<Rightarrow> string \<Rightarrow> int \<Rightarrow> int \<Rightarrow> (string \<times> string) traced" where
  "deployNewFungiblePausableToken E own nm smb supply cp =
     (let args = \<lparr>owner = own, name = nm, symbol = smb, decimals = 0, initial_supply = supply, cap = cp\<rparr>
      in andThen (call (EvDeploy args) (Client_deploy E args)) (\<lambda>at.
         andThen (call EvSignAuthEntries (throws (signAuthEntries E at))) (\<lambda>_.
         andThen (call EvSend (server_send E at)) (\<lambda>res.
         andThen (local (retval_contractId at)) (\<lambda>contractId.
           local (Inr (res, contractId)))))))"

text \<open>\<open>deployToken\<close> (part_000, lines 275-305).\<close>

definition deployToken_body :: "env \<Rightarrow> store \<Rightarrow> string \<Rightarrow> string \<Rightarrow> string \<Rightarrow> int \<Rightarrow> int \<Rightarrow> content_text traced" where
  "deployToken_body E st login nm smb supply cp =
     andThen (call (EvGetAddress login) (getAddress (column_affinity E) st login)) (\<lambda>address_sk.
       if \<not> tuple_truthy address_sk then local (Inr (Text ''No wallet address set''))
       else
         (case address_sk of (address, sk) \<Rightarrow>
            andThen (deployNewFungiblePausableToken E address nm smb supply cp) (\<lambda>res.
              (case res of (r, contractId) \<Rightarrow> local (Inr (Json_deployed r contractId))))))"

definition deployToken_handler :: "env \<Rightarrow> store \<Rightarrow> string \<Rightarrow> string \<Rightarrow> string \<Rightarrow> int \<Rightarrow> int \<Rightarrow> outcome \<times> event list" where
  "deployToken_handler E st login nm smb supply cp =
     try_catch (deployToken_body E st login nm smb supply cp)"

section \<open>Concrete inputs\<close>

text \<open>A stand-in for the SDK's address check: a string starting with \<open>C\<close> (contract) or
  \<open>G\<close> (account) is an address in canonical form, anything else is rejected.\<close>

definition sample_Address :: address_ctor where
  "sample_Address s =
     (case s of
        [] \<Rightarrow> Inl (InvalidAddress s)
      | c # _ \<Rightarrow> if c = CHR ''C'' \<or> c = CHR ''G'' then Inr s else Inl (InvalidAddress s))"

text \<open>
  A stand-in for the engine's conversion, for the strings used below: a string of decimal
  digits is an integer literal and is stored as that integer (\<^verbatim>\<open>'01'\<close> and \<^verbatim>\<open>'1'\<close> both
  as 1, \<^verbatim>\<open>'007'\<close> as 7); a string with a letter in it, other than a real literal, is
  kept as text. Signs, fractions, exponents and integers beyond 64 bits are left out of
  the stand-in.
\<close>

definition is_digit :: "char \<Rightarrow> bool" where
  "is_digit c = (48 \<le> (of_char c :: nat) \<and> (of_char c :: nat) \<le> 57)"

definition digits_value :: "string \<Rightarrow> nat" where
  "digits_value s = foldl (\<lambda>n c. 10 * n + (of_char c - 48)) 0 s"

definition sample_affinity :: affinity where
  "sample_affinity s =
     (if s \<noteq> [] \<and> list_all is_digit s then SqlInteger (int (digits_value s)) else SqlText s)"

text \<open>A stand-in for the engine's order of values: a number comes before a text,
  integers in their order, texts byte by byte.\<close>

fun text_le :: "string \<Rightarrow> string \<Rightarrow> bool" where
  "text_le [] t = True"
| "text_le (c # cs) [] = False"
| "text_le (c # cs) (d # ds) =
     ((of_char c :: nat) < of_char d \<or> (c = d \<and> text_le cs ds))"

fun sample_value_le :: "sql_value \<Rightarrow> sql_value \<Rightarrow> bool" where
  "sample_value_le (SqlText s) (SqlText t) = text_le s t"
| "sample_value_le (SqlText s) v = False"
| "sample_value_le (SqlInteger i) (SqlInteger j) = (i \<le> j)"
| "sample_value_le v w = True"

text \<open>A stand-in for the text JavaScript writes for a number: an integer in decimal.\<close>

function decimal :: "nat \<Rightarrow> string" where
  "decimal n =
     (if n < 10 then [char_of (48 + n)] else decimal (n div 10) @ [char_of (48 + n mod 10)])"
  by pat_completeness auto
termination
  by (relation "measure id") auto

definition sample_String_of_number :: "sql_value \<Rightarrow> string" where
  "sample_String_of_number v =
     (case v of
        SqlInteger i \<Rightarrow> (if i < 0 then CHR ''-'' # decimal (nat (- i)) else decimal (nat i))
      | SqlReal r \<Rightarrow> r
      | SqlText s \<Rightarrow> s)"

definition token_funcs :: "func list" where
  "token_funcs =
     [\<lparr>func_name = ''__constructor'', func_doc = ''Initializes a new token'', func_inputs = []\<rparr>,
      \<lparr>func_name = ''balance'', func_doc = ''Returns the balance of an account'',
       func_inputs = [\<lparr>input_name = ''account'', input_doc = ''The account'', input_type = ''Address''\<rparr>]\<rparr>,
      \<lparr>func_name = ''transfer'', func_doc = ''Transfers tokens'',
       func_inputs = [\<lparr>input_name = ''from'', input_doc = ''The sender'', input_type = ''Address''\<rparr>,
                      \<lparr>input_name = ''to'', input_doc = ''The receiver'', input_type = ''Address''\<rparr>,
                      \<lparr>input_name = ''amount'', input_doc = ''The amount'', input_type = ''i128''\<rparr>]\<rparr>]"

definition counter_funcs :: "func list" where
  "counter_funcs =
     [\<lparr>func_name = ''increment'', func_doc = ''Adds one to the counter'', func_inputs = []\<rparr>]"

text \<open>Three simulated calls: \<open>balance\<close>, a read; \<open>transfer\<close>, which requires the
  signature of \<open>GFROM\<close>; \<open>increment\<close>, which writes contract storage and asks nobody
  for authorization.\<close>

definition balance_at :: assembled where
  "balance_at = \<lparr>isReadCall = Inr True, needsNonInvokerSigningBy = Inr [],
                 retval_json = Inr ''100'', retval_contractId = Inl (External ''not an address'')\<rparr>"

definition transfer_at :: assembled where
  "transfer_at = \<lparr>isReadCall = Inr False, needsNonInvokerSigningBy = Inr [''GFROM''],
                  retval_json = Inr ''null'', retval_contractId = Inl (External ''not an address'')\<rparr>"

definition increment_at :: assembled where
  "increment_at = \<lparr>isReadCall = Inr False, needsNonInvokerSigningBy = Inr [],
                   retval_json = Inr ''1'', retval_contractId = Inl (External ''not an address'')\<rparr>"

definition deploy_at :: assembled where
  "deploy_at = \<lparr>isReadCall = Inr False, needsNonInvokerSigningBy = Inr [''GDEPLOYER''],
                retval_json = Inr ''CNEW'', retval_contractId = Inr ''CNEW''\<rparr>"

definition sample_env :: env where
  "sample_env =
     \<lparr>getContractWasmByContractId =
        (\<lambda>cid. if cid = SqlText ''CTOKEN'' then Inr ''wasm-token''
               else if cid = SqlText ''CCOUNTER'' then Inr ''wasm-counter''
               else Inl (External ''contract not found'')),
      Client_fromWasm =
        (\<lambda>wasm cid. if wasm = ''wasm-token'' then Inr token_funcs
                    else if wasm = ''wasm-counter'' then Inr counter_funcs
                    else Inl (External ''malformed'')),
      server_tool_throws =
        (\<lambda>reg t. if tool_name t \<in> set (map tool_name reg)
                  then Some (External ''already registered'') else None),
      buildWithOp =
        (\<lambda>cid fn args.
           if fn = ''balance'' then Inr balance_at
           else if fn = ''transfer'' then Inr transfer_at
           else if fn = ''increment'' then Inr increment_at
           else Inl (External ''simulation failed'')),
      wallet_sign = (\<lambda>at address sk. None),
      server_send = (\<lambda>at. Inr ''SUCCESS''),
      JSON_parse = (\<lambda>s. Inr s),
      Address_toString = sample_Address,
      publicKey_of_secret = (\<lambda>sk. Inr (''G'' @ sample_String_of_number sk)),
      Client_deploy = (\<lambda>args. Inr deploy_at),
      signAuthEntries = (\<lambda>at. None),
      random_secret = ''SFRESH'',
      column_affinity = sample_affinity,
      value_le = sample_value_le,
      String_of_number = sample_String_of_number\<rparr>"

text \<open>The same environment with a tool server that accepts every tool.\<close>

definition quiet_env :: env where
  "quiet_env = sample_env\<lparr>server_tool_throws := \<lambda>reg t. None\<rparr>"

definition wallet_store :: store where
  "wallet_store =
     \<lparr>addresses = [(SqlText ''u1'', SqlText ''CWALLET'', SqlText ''SFRESH'')],
      contracts = [(SqlText ''u1'', SqlText ''Missing'', SqlText ''CMISSING''),
                   (SqlText ''u1'', SqlText ''Counter'', SqlText ''CCOUNTER''),
                   (SqlText ''u1'', SqlText ''Token'', SqlText ''CTOKEN'')]\<rparr>"

text \<open>The same store after \<open>removeContract\<close> of the contract \<open>CMISSING\<close>, whose code the
  ledger does not find.\<close>

definition healthy_store :: store where
  "healthy_store =
     \<lparr>addresses = [(SqlText ''u1'', SqlText ''CWALLET'', SqlText ''SFRESH'')],
      contracts = [(SqlText ''u1'', SqlText ''Counter'', SqlText ''CCOUNTER''),
                   (SqlText ''u1'', SqlText ''Token'', SqlText ''CTOKEN'')]\<rparr>"

section \<open>The tracked-contract registry\<close>

lemma list_ex_filter_conv: "list_ex P xs \<longleftrightarrow> filter P xs \<noteq> []"
  by (induction xs) auto

text \<open>The index scan returns the rows it is given, each once.\<close>

lemma index_insert_set: "set (index_insert le r xs) = insert r (set xs)"
  by (induction xs) auto

lemma index_insert_length: "length (index_insert le r xs) = Suc (length xs)"
  by (induction xs) auto

lemma index_scan_acc_set:
  "set (foldl (\<lambda>scanned r. index_insert le r scanned) acc rows) = set acc \<union> set rows"
  by (induction rows arbitrary: acc) (auto simp: index_insert_set)

lemma index_scan_acc_length:
  "length (foldl (\<lambda>scanned r. index_insert le r scanned) acc rows) = length acc + length rows"
  by (induction rows arbitrary: acc) (auto simp: index_insert_length)

lemma index_scan_set: "set (index_scan le rows) = set rows"
  by (simp add: index_scan_def index_scan_acc_set)

lemma index_scan_length: "length (index_scan le rows) = length rows"
  by (simp add: index_scan_def index_scan_acc_length)

lemma index_scan_Nil_iff: "index_scan le rows = [] \<longleftrightarrow> rows = []"
  using index_scan_length [of le rows] by (metis length_0_conv)

lemma index_scan_one: "index_scan le [r] = [r]"
  by (simp add: index_scan_def)

lemma getContracts_Nil_iff:
  "getContracts aff le st u = [] \<longleftrightarrow> filter (\<lambda>(l, n, a). l = aff u) (contracts st) = []"
  by (simp add: getContracts_def index_scan_Nil_iff)

lemma getContracts_set:
  "set (getContracts aff le st u) = {(n, a). (aff u, n, a) \<in> set (contracts st)}"
proof -
  have "(n, a) \<in> set (getContracts aff le st u) \<longleftrightarrow> (aff u, n, a) \<in> set (contracts st)" for n a
  proof
    assume "(n, a) \<in> set (getContracts aff le st u)"
    then obtain r where r: "r \<in> set (filter (\<lambda>(l, n, a). l = aff u) (contracts st))"
      and eq: "(n, a) = (\<lambda>(l, n, a). (n, a)) r"
      by (auto simp: getContracts_def index_scan_set)
    obtain l n' a' where "r = (l, n', a')" by (cases r)
    then show "(aff u, n, a) \<in> set (contracts st)" using r eq by auto
  next
    assume "(aff u, n, a) \<in> set (contracts st)"
    then have "(aff u, n, a) \<in> set (filter (\<lambda>(l, n, a). l = aff u) (contracts st))" by simp
    then have "(\<lambda>(l, n, a). (n, a)) (aff u, n, a) \<in> set (getContracts aff le st u)"
      unfolding getContracts_def set_map index_scan_set by (rule imageI)
    then show "(n, a) \<in> set (getContracts aff le st u)" by simp
  qed
  then show ?thesis by auto
qed

text \<open>What \<open>addContract\<close> does with a well-formed address: nothing when the user already
  tracks it, one more row otherwise.\<close>

lemma addContract_rows:
  assumes "A addr = Inr c"
  shows "addContract A aff st u nm addr =
           Inr (if (\<exists>n. (aff u, n, aff c) \<in> set (contracts st)) then st
                else st\<lparr>contracts := contracts st @ [(aff u, aff nm, aff c)]\<rparr>)"
proof -
  have "list_ex (\<lambda>(l, n, a). l = aff u \<and> a = aff c) (contracts st)
          \<longleftrightarrow> (\<exists>n. (aff u, n, aff c) \<in> set (contracts st))"
    by (auto simp: list_ex_iff)
  then show ?thesis
    using assms by (simp add: addContract_def insert_or_ignore_contract_def)
qed

text \<open>
  C7, as the code has it. For an address \<open>addr\<close> that the address constructor accepts,
  with canonical form \<open>c\<close>, a name and a canonical address that the columns keep as the
  texts they are, and a user without tracked contracts (in particular on the empty
  registry): \<open>addContract\<close> appends the row, and \<open>getContracts\<close> then returns exactly the
  one entry \<open>(nm, c)\<close>. The key is the pair of user and address: a further call for the
  same user and address, under any name, returns the store it was given; a call for the
  same user with another address appends a second entry; a call for another user with
  the same address appends a row and leaves the first user's list as it is.
\<close>

theorem addContract_insert_if_absent:
  assumes "A addr = Inr c" and "aff nm = SqlText nm" and "aff c = SqlText c"
    and "getContracts aff le st u = []"
  shows "(let st1 = st\<lparr>contracts := contracts st @ [(aff u, SqlText nm, SqlText c)]\<rparr>
          in addContract A aff st u nm addr = Inr st1
           \<and> getContracts aff le st1 u = [(SqlText nm, SqlText c)]
           \<and> (\<forall>nm'. addContract A aff st1 u nm' addr = Inr st1)
           \<and> (\<forall>nm2 addr2 c2. A addr2 = Inr c2 \<and> aff c2 \<noteq> aff c \<longrightarrow>
                  addContract A aff st1 u nm2 addr2
                    = Inr (st1\<lparr>contracts := contracts st1 @ [(aff u, aff nm2, aff c2)]\<rparr>)
                \<and> set (getContracts aff le (st1\<lparr>contracts := contracts st1 @ [(aff u, aff nm2, aff c2)]\<rparr>) u)
                    = {(SqlText nm, SqlText c), (aff nm2, aff c2)}
                \<and> length (getContracts aff le (st1\<lparr>contracts := contracts st1 @ [(aff u, aff nm2, aff c2)]\<rparr>) u) = 2)
           \<and> (\<forall>u2. aff u2 \<noteq> aff u \<and> (\<forall>n. (n, aff c) \<notin> set (getContracts aff le st u2)) \<longrightarrow>
                  addContract A aff st1 u2 nm addr
                    = Inr (st1\<lparr>contracts := contracts st1 @ [(aff u2, SqlText nm, SqlText c)]\<rparr>)
                \<and> getContracts aff le (st1\<lparr>contracts := contracts st1 @ [(aff u2, SqlText nm, SqlText c)]\<rparr>) u
                    = [(SqlText nm, SqlText c)]))"
proof -
  define st1 where "st1 = st\<lparr>contracts := contracts st @ [(aff u, SqlText nm, SqlText c)]\<rparr>"
  have none: "filter (\<lambda>(l, n, a). l = aff u) (contracts st) = []"
    using assms(4) by (simp add: getContracts_Nil_iff)
  then have untracked: "(aff u, n, a) \<notin> set (contracts st)" for n a
    by (auto simp: filter_empty_conv)
  have rows1: "contracts st1 = contracts st @ [(aff u, SqlText nm, SqlText c)]"
    by (simp add: st1_def)
  have mine1: "filter (\<lambda>(l, n, a). l = aff u) (contracts st1) = [(aff u, SqlText nm, SqlText c)]"
    using none by (simp add: rows1)
  have step1: "addContract A aff st u nm addr = Inr st1"
    using addContract_rows [of A addr c aff st u nm] assms(1) untracked assms(2,3)
    by (simp add: st1_def)
  have listed: "getContracts aff le st1 u = [(SqlText nm, SqlText c)]"
    by (simp add: getContracts_def mine1 index_scan_one)
  have tracked: "(aff u, SqlText nm, aff c) \<in> set (contracts st1)"
    using assms(3) by (simp add: rows1)
  have again: "addContract A aff st1 u nm' addr = Inr st1" for nm'
    using addContract_rows [of A addr c aff st1 u nm'] assms(1) tracked by auto
  have other_address:
    "addContract A aff st1 u nm2 addr2 = Inr (st1\<lparr>contracts := contracts st1 @ [(aff u, aff nm2, aff c2)]\<rparr>)
     \<and> set (getContracts aff le (st1\<lparr>contracts := contracts st1 @ [(aff u, aff nm2, aff c2)]\<rparr>) u)
          = {(SqlText nm, SqlText c), (aff nm2, aff c2)}
     \<and> length (getContracts aff le (st1\<lparr>contracts := contracts st1 @ [(aff u, aff nm2, aff c2)]\<rparr>) u) = 2"
    if valid: "A addr2 = Inr c2" and differs: "aff c2 \<noteq> aff c" for nm2 addr2 c2
  proof -
    define st2 where "st2 = st1\<lparr>contracts := contracts st1 @ [(aff u, aff nm2, aff c2)]\<rparr>"
    have "(aff u, n, aff c2) \<notin> set (contracts st1)" for n
      using untracked differs assms(3) by (auto simp: rows1)
    then have add: "addContract A aff st1 u nm2 addr2 = Inr st2"
      using addContract_rows [of A addr2 c2 aff st1 u nm2] valid by (simp add: st2_def)
    have mine2: "filter (\<lambda>(l, n, a). l = aff u) (contracts st2)
                   = [(aff u, SqlText nm, SqlText c), (aff u, aff nm2, aff c2)]"
      using mine1 by (simp add: st2_def)
    have "set (getContracts aff le st2 u) = {(SqlText nm, SqlText c), (aff nm2, aff c2)}"
      by (simp add: getContracts_def index_scan_set mine2)
    moreover have "length (getContracts aff le st2 u) = 2"
      by (simp add: getContracts_def index_scan_length mine2)
    ultimately show ?thesis using add unfolding st2_def by simp
  qed
  have other_user:
    "addContract A aff st1 u2 nm addr = Inr (st1\<lparr>contracts := contracts st1 @ [(aff u2, SqlText nm, SqlText c)]\<rparr>)
     \<and> getContracts aff le (st1\<lparr>contracts := contracts st1 @ [(aff u2, SqlText nm, SqlText c)]\<rparr>) u
          = [(SqlText nm, SqlText c)]"
    if differs: "aff u2 \<noteq> aff u" and fresh: "\<forall>n. (n, aff c) \<notin> set (getContracts aff le st u2)" for u2
  proof -
    define st2 where "st2 = st1\<lparr>contracts := contracts st1 @ [(aff u2, SqlText nm, SqlText c)]\<rparr>"
    have "(aff u2, n, aff c) \<notin> set (contracts st)" for n
      using fresh by (simp add: getContracts_set)
    then have "(aff u2, n, aff c) \<notin> set (contracts st1)" for n
      using differs by (simp add: rows1)
    then have add: "addContract A aff st1 u2 nm addr = Inr st2"
      using addContract_rows [of A addr c aff st1 u2 nm] assms(1) assms(2,3) by (simp add: st2_def)
    have "filter (\<lambda>(l, n, a). l = aff u) (contracts st2) = [(aff u, SqlText nm, SqlText c)]"
      using mine1 differs by (simp add: st2_def)
    then have "getContracts aff le st2 u = [(SqlText nm, SqlText c)]"
      by (simp add: getContracts_def index_scan_one)
    then show ?thesis using add unfolding st2_def by simp
  qed
  show ?thesis
    unfolding Let_def st1_def [symmetric]
    using step1 listed again other_address other_user by blast
qed

theorem addContract_insert_if_absent_witness:
  "sample_Address ''CTOKEN'' = Inr ''CTOKEN''
   \<and> sample_affinity ''Token'' = SqlText ''Token'' \<and> sample_affinity ''CTOKEN'' = SqlText ''CTOKEN''
   \<and> getContracts sample_affinity sample_value_le empty_store ''u1'' = []
   \<and> addContract sample_Address sample_affinity empty_store ''u1'' ''Token'' ''CTOKEN''
       = Inr \<lparr>addresses = [], contracts = [(SqlText ''u1'', SqlText ''Token'', SqlText ''CTOKEN'')]\<rparr>
   \<and> getContracts sample_affinity sample_value_le
         \<lparr>addresses = [], contracts = [(SqlText ''u1'', SqlText ''Token'', SqlText ''CTOKEN'')]\<rparr> ''u1''
       = [(SqlText ''Token'', SqlText ''CTOKEN'')]
   \<and> addContract sample_Address sample_affinity
         \<lparr>addresses = [], contracts = [(SqlText ''u1'', SqlText ''Token'', SqlText ''CTOKEN'')]\<rparr>
         ''u1'' ''Token'' ''CTOKEN''
       = Inr \<lparr>addresses = [], contracts = [(SqlText ''u1'', SqlText ''Token'', SqlText ''CTOKEN'')]\<rparr>
   \<and> sample_Address ''CCOUNTER'' = Inr ''CCOUNTER''
   \<and> sample_affinity ''CCOUNTER'' \<noteq> sample_affinity ''CTOKEN''
   \<and> addContract sample_Address sample_affinity
         \<lparr>addresses = [], contracts = [(SqlText ''u1'', SqlText ''Token'', SqlText ''CTOKEN'')]\<rparr>
         ''u1'' ''Counter'' ''CCOUNTER''
       = Inr \<lparr>addresses = [], contracts = [(SqlText ''u1'', SqlText ''Token'', SqlText ''CTOKEN''),
                                             (SqlText ''u1'', SqlText ''Counter'', SqlText ''CCOUNTER'')]\<rparr>
   \<and> sample_affinity ''u2'' \<noteq> sample_affinity ''u1''
   \<and> addContract sample_Address sample_affinity
         \<lparr>addresses = [], contracts = [(SqlText ''u1'', SqlText ''Token'', SqlText ''CTOKEN'')]\<rparr>
         ''u2'' ''Token'' ''CTOKEN''
       = Inr \<lparr>addresses = [], contracts = [(SqlText ''u1'', SqlText ''Token'', SqlText ''CTOKEN''),
                                             (SqlText ''u2'', SqlText ''Token'', SqlText ''CTOKEN'')]\<rparr>"
proof -
  have a: "sample_Address ''CTOKEN'' = Inr ''CTOKEN''"
    by (simp add: sample_Address_def)
  have b: "sample_affinity ''Token'' = SqlText ''Token''"
    by (simp add: sample_affinity_def is_digit_def)
  have c: "sample_affinity ''CTOKEN'' = SqlText ''CTOKEN''"
    by (simp add: sample_affinity_def is_digit_def)
  have d: "getContracts sample_affinity sample_value_le empty_store ''u1'' = []"
    by (simp add: getContracts_def empty_store_def index_scan_def)
  have u1: "sample_affinity ''u1'' = SqlText ''u1''"
    by (simp add: sample_affinity_def is_digit_def)
  have u2: "sample_affinity ''u2'' = SqlText ''u2''"
    by (simp add: sample_affinity_def is_digit_def)
  have e: "sample_Address ''CCOUNTER'' = Inr ''CCOUNTER''"
    by (simp add: sample_Address_def)
  have f: "sample_affinity ''CCOUNTER'' = SqlText ''CCOUNTER''"
    by (simp add: sample_affinity_def is_digit_def)
  have g: "sample_affinity ''Counter'' = SqlText ''Counter''"
    by (simp add: sample_affinity_def is_digit_def)
  have fresh: "\<forall>n. (n, sample_affinity ''CTOKEN'') \<notin> set (getContracts sample_affinity sample_value_le empty_store ''u2'')"
    by (simp add: getContracts_def empty_store_def index_scan_def)
  note all = addContract_insert_if_absent [where A = sample_Address and addr = "''CTOKEN''"
      and c = "''CTOKEN''" and aff = sample_affinity and nm = "''Token''" and le = sample_value_le
      and st = empty_store and u = "''u1''", OF a b c d, unfolded Let_def]
  let ?st1 = "empty_store\<lparr>contracts := contracts empty_store @ [(sample_affinity ''u1'', SqlText ''Token'', SqlText ''CTOKEN'')]\<rparr>"
  note p1 = all [THEN conjunct1]
  note p2 = all [THEN conjunct2, THEN conjunct1]
  note p3 = all [THEN conjunct2, THEN conjunct2, THEN conjunct1, rule_format]
  note p4 = all [THEN conjunct2, THEN conjunct2, THEN conjunct2, THEN conjunct1, rule_format]
  note p5 = all [THEN conjunct2, THEN conjunct2, THEN conjunct2, THEN conjunct2, rule_format]
  have first: "addContract sample_Address sample_affinity empty_store ''u1'' ''Token'' ''CTOKEN'' = Inr ?st1"
    by (rule p1)
  have listed: "getContracts sample_affinity sample_value_le ?st1 ''u1'' = [(SqlText ''Token'', SqlText ''CTOKEN'')]"
    by (rule p2)
  have again: "addContract sample_Address sample_affinity ?st1 ''u1'' ''Token'' ''CTOKEN'' = Inr ?st1"
    by (rule p3)
  have pre4: "sample_Address ''CCOUNTER'' = Inr ''CCOUNTER''
              \<and> sample_affinity ''CCOUNTER'' \<noteq> sample_affinity ''CTOKEN''"
    using e by (simp add: f c)
  have second: "addContract sample_Address sample_affinity ?st1 ''u1'' ''Counter'' ''CCOUNTER''
       = Inr (?st1\<lparr>contracts := contracts ?st1 @ [(sample_affinity ''u1'', sample_affinity ''Counter'', sample_affinity ''CCOUNTER'')]\<rparr>)"
    using p4 [OF pre4, of "''Counter''"] by (rule conjunct1)
  have pre5: "sample_affinity ''u2'' \<noteq> sample_affinity ''u1''
              \<and> (\<forall>n. (n, sample_affinity ''CTOKEN'') \<notin> set (getContracts sample_affinity sample_value_le empty_store ''u2''))"
    using fresh by (simp add: u1 u2)
  have other: "addContract sample_Address sample_affinity ?st1 ''u2'' ''Token'' ''CTOKEN''
       = Inr (?st1\<lparr>contracts := contracts ?st1 @ [(sample_affinity ''u2'', SqlText ''Token'', SqlText ''CTOKEN'')]\<rparr>)"
    using p5 [OF pre5] by (rule conjunct1)
  show ?thesis
    using a b c d e first listed again second other
    by (simp add: empty_store_def u1 u2 f g)
qed

text \<open>
  C7 as stated fails. A string that is not an address makes \<open>new Address\<close> throw before
  the statement runs, so after \<open>addContract\<close> the list is still empty. And a name that
  reads as a number does not come back as the string that went in: the column stores
  \<^verbatim>\<open>'007'\<close> as the integer 7.
\<close>

theorem addContract_entry_counterexample:
  "addContract sample_Address sample_affinity empty_store ''u1'' ''Token'' ''bad''
     = Inl (InvalidAddress ''bad'')
   \<and> getContracts sample_affinity sample_value_le
         (store_after empty_store
            (addContract sample_Address sample_affinity empty_store ''u1'' ''Token'' ''bad'')) ''u1''
       = []
   \<and> getContracts sample_affinity sample_value_le
         (store_after empty_store
            (addContract sample_Address sample_affinity empty_store ''u1'' ''007'' ''CTOKEN'')) ''u1''
       = [(SqlInteger 7, SqlText ''CTOKEN'')]"
  by code_simp

section \<open>Wallet records\<close>

lemma getAddress_no_record:
  "wallet_records aff st login = [] \<Longrightarrow> getAddress aff st login = Inl OneRowError"
  by (simp add: getAddress_def wallet_records_def)

lemma setAddress_existing_noop:
  assumes "wallet_records aff st login \<noteq> []"
  shows "store_after st (setAddress A aff sk st login wallet) = st"
proof (cases "A wallet")
  case (Inl e)
  then show ?thesis by (simp add: setAddress_def store_after_def)
next
  case (Inr address)
  have "list_ex (\<lambda>(l, a, s). l = aff login) (addresses st)"
    using assms by (simp add: wallet_records_def list_ex_filter_conv)
  then show ?thesis
    using Inr by (simp add: setAddress_def store_after_def insert_or_ignore_address_def)
qed

text \<open>
  C6, as the code has it. For a user for whom the store finds no wallet record and a
  wallet string the address constructor accepts, the call of \<open>setAddress\<close> (and so the
  \<open>setWallet\<close> tool) appends exactly one record, holding the login, the canonical
  address and the secret as the columns store them; the secret is \<open>random_secret E\<close>, the
  value drawn by \<^verbatim>\<open>Keypair.random()\<close> inside the store, whatever the caller passed;
  \<open>getAddress\<close> then returns that address and secret. Every later call for the same
  user, with any wallet string, any outcome of the address check and any fresh secret,
  leaves the store as it is.
\<close>

theorem setAddress_insert_if_absent:
  assumes "Address_toString E wallet = Inr address"
    and "wallet_records (column_affinity E) st login = []"
  shows "(let aff = column_affinity E;
              st1 = st\<lparr>addresses := addresses st @ [(aff login, aff address, aff (random_secret E))]\<rparr>
          in setAddress (Address_toString E) aff (random_secret E) st login wallet = Inr st1
           \<and> snd (setWallet_handler E st login wallet) = st1
           \<and> wallet_records aff st1 login = [(aff login, aff address, aff (random_secret E))]
           \<and> getAddress aff st1 login = Inr (aff address, aff (random_secret E))
           \<and> (\<forall>A' sk' wallet'. store_after st1 (setAddress A' aff sk' st1 login wallet') = st1)
           \<and> (\<forall>E' wallet'. column_affinity E' = aff \<longrightarrow>
                  snd (setWallet_handler E' st1 login wallet') = st1))"
proof -
  define aff where "aff = column_affinity E"
  define st1 where
    "st1 = st\<lparr>addresses := addresses st @ [(aff login, aff address, aff (random_secret E))]\<rparr>"
  have absent: "\<not> list_ex (\<lambda>(l, a, s). l = aff login) (addresses st)"
    using assms(2) by (simp add: wallet_records_def list_ex_filter_conv aff_def)
  have ins: "setAddress (Address_toString E) aff (random_secret E) st login wallet = Inr st1"
    using assms(1) absent by (simp add: setAddress_def insert_or_ignore_address_def st1_def)
  have tool: "snd (setWallet_handler E st login wallet) = st1"
    using ins by (simp add: setWallet_handler_def store_after_def aff_def)
  have recs: "wallet_records aff st1 login = [(aff login, aff address, aff (random_secret E))]"
    using assms(2) by (simp add: wallet_records_def st1_def aff_def)
  have look: "getAddress aff st1 login = Inr (aff address, aff (random_secret E))"
    using recs by (simp add: getAddress_def wallet_records_def)
  have present: "wallet_records aff st1 login \<noteq> []"
    using recs by simp
  have again: "store_after st1 (setAddress A' aff sk' st1 login wallet') = st1" for A' sk' wallet'
    using present by (rule setAddress_existing_noop)
  have tool_again: "snd (setWallet_handler E' st1 login wallet') = st1"
    if "column_affinity E' = aff" for E' wallet'
    using again that by (simp add: setWallet_handler_def)
  show ?thesis
    unfolding Let_def aff_def [symmetric] st1_def [symmetric]
    using ins tool recs look again tool_again by blast
qed

theorem setAddress_insert_if_absent_witness:
  "Address_toString sample_env ''GWALLET'' = Inr ''GWALLET''
   \<and> wallet_records (column_affinity sample_env) empty_store ''u1'' = []
   \<and> setAddress (Address_toString sample_env) (column_affinity sample_env) (random_secret sample_env)
        empty_store ''u1'' ''GWALLET''
       = Inr \<lparr>addresses = [(SqlText ''u1'', SqlText ''GWALLET'', SqlText ''SFRESH'')], contracts = []\<rparr>
   \<and> getAddress (column_affinity sample_env)
        \<lparr>addresses = [(SqlText ''u1'', SqlText ''GWALLET'', SqlText ''SFRESH'')], contracts = []\<rparr> ''u1''
       = Inr (SqlText ''GWALLET'', SqlText ''SFRESH'')
   \<and> snd (setWallet_handler sample_env
             \<lparr>addresses = [(SqlText ''u1'', SqlText ''GWALLET'', SqlText ''SFRESH'')], contracts = []\<rparr>
             ''u1'' ''GOTHER'')
       = \<lparr>addresses = [(SqlText ''u1'', SqlText ''GWALLET'', SqlText ''SFRESH'')], contracts = []\<rparr>"
proof -
  have a: "Address_toString sample_env ''GWALLET'' = Inr ''GWALLET''"
    by (simp add: sample_env_def sample_Address_def)
  have b: "wallet_records (column_affinity sample_env) empty_store ''u1'' = []"
    by (simp add: wallet_records_def empty_store_def)
  have c: "random_secret sample_env = ''SFRESH''" "column_affinity sample_env = sample_affinity"
    by (simp_all add: sample_env_def)
  have d: "sample_affinity ''u1'' = SqlText ''u1''" "sample_affinity ''GWALLET'' = SqlText ''GWALLET''"
    "sample_affinity ''SFRESH'' = SqlText ''SFRESH''"
    by (simp_all add: sample_affinity_def is_digit_def)
  show ?thesis
    using a b setAddress_insert_if_absent [of sample_env "''GWALLET''" "''GWALLET''" empty_store "''u1''"]
    by (simp add: Let_def empty_store_def c d)
qed

text \<open>
  C6 as stated fails. A first \<open>setWallet\<close> call with a string that is not an address
  stores no record, although the tool answers that the wallet is set. And the login is
  a key only up to the column's conversion: after a call by the user \<^verbatim>\<open>01\<close>, the first
  call by the user \<^verbatim>\<open>1\<close> finds the key taken and stores nothing.
\<close>

theorem setWallet_first_call_counterexample:
  "setWallet_handler sample_env empty_store ''u1'' ''xyz''
     = (Envelope (Text ''Wallet address set to xyz''), empty_store)
   \<and> wallet_records sample_affinity (snd (setWallet_handler sample_env empty_store ''u1'' ''xyz'')) ''u1'' = []
   \<and> snd (setWallet_handler sample_env empty_store ''01'' ''GA'')
       = \<lparr>addresses = [(SqlInteger 1, SqlText ''GA'', SqlText ''SFRESH'')], contracts = []\<rparr>
   \<and> snd (setWallet_handler sample_env
             \<lparr>addresses = [(SqlInteger 1, SqlText ''GA'', SqlText ''SFRESH'')], contracts = []\<rparr> ''1'' ''GB'')
       = \<lparr>addresses = [(SqlInteger 1, SqlText ''GA'', SqlText ''SFRESH'')], contracts = []\<rparr>"
  by code_simp

text \<open>
  C10. For a user without a wallet record \<open>getAddress\<close> throws, because \<open>one()\<close> wants
  exactly one row; the \<open>getWallet\<close> and \<open>setContractAddress\<close> tools, which have no
  \<open>try\<close>, then end in that exception. Their \<^verbatim>\<open>"No wallet address set"\<close> branches are
  dead: for no store and no user does either handler answer with that message.
\<close>

theorem getAddress_throws_without_wallet:
  "(wallet_records (column_affinity E) st login = [] \<longrightarrow>
      getAddress (column_affinity E) st login = Inl OneRowError
    \<and> getWallet_handler E st login = (Thrown OneRowError, st)
    \<and> setContractAddress_handler E st login nm address = (Thrown OneRowError, st))
   \<and> fst (getWallet_handler E st login) \<noteq> Envelope (Text ''No wallet address set'')
   \<and> fst (setContractAddress_handler E st login nm address) \<noteq> Envelope (Text ''No wallet address set'')"
proof -
  have thrown: "getAddress (column_affinity E) st login = Inl OneRowError
      \<and> getWallet_handler E st login = (Thrown OneRowError, st)
      \<and> setContractAddress_handler E st login nm address = (Thrown OneRowError, st)"
    if "wallet_records (column_affinity E) st login = []"
    using getAddress_no_record [OF that]
    by (simp add: getWallet_handler_def setContractAddress_handler_def)
  have dead1: "fst (getWallet_handler E st login) \<noteq> Envelope (Text ''No wallet address set'')"
    by (simp add: getWallet_handler_def tuple_length_def split: sum.splits prod.splits)
  have dead2: "fst (setContractAddress_handler E st login nm address) \<noteq> Envelope (Text ''No wallet address set'')"
    by (simp add: setContractAddress_handler_def tuple_truthy_def split: sum.splits prod.splits)
  show ?thesis using thrown dead1 dead2 by blast
qed

theorem getAddress_throws_without_wallet_witness:
  "wallet_records (column_affinity sample_env) empty_store ''u1'' = []
   \<and> getAddress (column_affinity sample_env) empty_store ''u1'' = Inl OneRowError
   \<and> getWallet_handler sample_env empty_store ''u1'' = (Thrown OneRowError, empty_store)
   \<and> setContractAddress_handler sample_env empty_store ''u1'' ''Token'' ''CTOKEN'' = (Thrown OneRowError, empty_store)"
proof -
  have b: "wallet_records (column_affinity sample_env) empty_store ''u1'' = []"
    by (simp add: wallet_records_def empty_store_def)
  show ?thesis
    using b getAddress_throws_without_wallet [of sample_env empty_store "''u1''" "''Token''" "''CTOKEN''"]
    by simp
qed

section \<open>The handler boundary\<close>

text \<open>
  C2. Not every invocation ends in an envelope. \<open>getWallet\<close> and \<open>setContractAddress\<close>
  have no \<open>try\<close> around their awaited store calls: invoked by a user without a wallet
  record they throw, and \<open>setContractAddress\<close> also throws for a string that is not an
  address. The synthesized tools and \<open>deployToken\<close>, which wrap their body in
  \<open>try\<close>/\<open>catch\<close>, always end in an envelope (\<open>invoke_handler_envelope\<close>,
  \<open>deployToken_handler_envelope\<close> below).
\<close>

theorem fixed_tools_throw_uncaught:
  "getWallet_handler sample_env empty_store ''u1'' = (Thrown OneRowError, empty_store)
   \<and> setContractAddress_handler sample_env empty_store ''u1'' ''Token'' ''CTOKEN'' = (Thrown OneRowError, empty_store)
   \<and> setContractAddress_handler sample_env wallet_store ''u1'' ''Counter'' ''bad''
       = (Thrown (InvalidAddress ''bad''), wallet_store)"
  by code_simp

lemma try_catch_envelope: "\<exists>t. fst (try_catch m) = Envelope t"
  by (cases m) (auto simp: try_catch_def split: sum.splits)

lemma invoke_handler_envelope: "\<exists>t. fst (invoke_handler E st login cid fn args) = Envelope t"
  unfolding invoke_handler_def by (rule try_catch_envelope)

lemma deployToken_handler_envelope: "\<exists>t. fst (deployToken_handler E st login nm smb supply cp) = Envelope t"
  unfolding deployToken_handler_def by (rule try_catch_envelope)

section \<open>The synthesized contract tool\<close>

lemma andThen_call_Inr: "andThen (call ev (Inr x)) f = (fst (f x), ev # snd (f x))"
  by (simp add: andThen_def call_def split: prod.splits)

lemma andThen_call_Inl: "andThen (call ev (Inl e)) f = (Inl e, [ev])"
  by (simp add: andThen_def call_def)

lemma andThen_local_Inr: "andThen (local (Inr x)) f = f x"
  by (simp add: andThen_def local_def split: prod.splits)

lemma andThen_local_Inl: "andThen (local (Inl e)) f = (Inl e, [])"
  by (simp add: andThen_def local_def)

lemmas andThen_simps = andThen_call_Inr andThen_call_Inl andThen_local_Inr andThen_local_Inl

lemma try_catch_Inr: "try_catch (Inr t, tr) = (Envelope t, tr)"
  by (simp add: try_catch_def)

lemma try_catch_Inl: "try_catch (Inl e, tr) = (Envelope (Json_error e), tr)"
  by (simp add: try_catch_def)

lemma invoke_body_read:
  assumes "buildWithOp E cid fn args = Inr at" "isReadCall at = Inr True"
    "needsNonInvokerSigningBy at = Inr ns" "retval_json at = Inr json"
  shows "invoke_body E st login cid fn args = (Inr (Text json), [EvSimulate cid fn args])"
  using assms by (simp add: invoke_body_def andThen_simps) (simp add: local_def)

lemma invoke_body_mutation:
  assumes "buildWithOp E cid fn args = Inr at" "isReadCall at = Inr False"
    "needsNonInvokerSigningBy at = Inr ns" "retval_json at = Inr json"
  shows "\<exists>r tr. invoke_body E st login cid fn args = (r, EvSimulate cid fn args # EvGetAddress login # tr)"
proof (cases "getAddress (column_affinity E) st login")
  case (Inl e)
  then show ?thesis using assms by (simp add: invoke_body_def andThen_simps)
next
  case (Inr address_sk)
  then show ?thesis using assms by (simp add: invoke_body_def andThen_simps)
qed

lemma invoke_body_no_wallet:
  assumes "buildWithOp E cid fn args = Inr at" "isReadCall at = Inr False"
    "needsNonInvokerSigningBy at = Inr ns" "retval_json at = Inr json"
    "wallet_records (column_affinity E) st login = []"
  shows "invoke_body E st login cid fn args = (Inl OneRowError, [EvSimulate cid fn args, EvGetAddress login])"
  using assms getAddress_no_record [OF assms(5)] by (simp add: invoke_body_def andThen_simps)

text \<open>The relay is called only on the mutation path.\<close>

lemma send_only_on_mutation:
  assumes "EvSend \<in> set (snd (invoke_handler E st login cid fn args))"
  shows "\<exists>at address sk. buildWithOp E cid fn args = Inr at \<and> isReadCall at = Inr False
           \<and> getAddress (column_affinity E) st login = Inr (address, sk) \<and> wallet_sign E at address sk = None"
  using assms
  by (auto simp: invoke_handler_def invoke_body_def try_catch_def andThen_def call_def local_def throws_def
      split: sum.splits prod.splits if_splits option.splits)

text \<open>
  C1, as the code has it. The handler branches on the SDK's \<open>isReadCall\<close> flag of the
  assembled transaction and on nothing else: the list \<open>needsNonInvokerSigningBy\<close> is
  read (and logged) but does not enter the decision. Whenever the simulation and the three
  reads succeed, with any list \<open>ns\<close> of outstanding signers: the flag is set exactly when
  the simulation is the only call the handler makes; when it is set, the decoded return
  value is the envelope, with no wallet lookup, signing or submission; when it is not set,
  the handler goes on to the wallet lookup.
\<close>

theorem read_call_returns_without_submission:
  assumes "buildWithOp E cid fn args = Inr at" and "isReadCall at = Inr b"
    and "needsNonInvokerSigningBy at = Inr ns" and "retval_json at = Inr json"
  shows "(b \<longleftrightarrow> snd (invoke_handler E st login cid fn args) = [EvSimulate cid fn args])
       \<and> (b \<longrightarrow> invoke_handler E st login cid fn args = (Envelope (Text json), [EvSimulate cid fn args]))
       \<and> (\<not> b \<longrightarrow> take 2 (snd (invoke_handler E st login cid fn args)) = [EvSimulate cid fn args, EvGetAddress login])"
proof (cases b)
  case True
  have "invoke_handler E st login cid fn args = (Envelope (Text json), [EvSimulate cid fn args])"
    using invoke_body_read [OF assms(1) _ assms(3,4)] assms(2) True
    by (simp add: invoke_handler_def try_catch_Inr)
  then show ?thesis using True by simp
next
  case False
  have flag: "isReadCall at = Inr False"
    using assms(2) False by simp
  obtain r tr where body: "invoke_body E st login cid fn args = (r, EvSimulate cid fn args # EvGetAddress login # tr)"
    using invoke_body_mutation [OF assms(1) flag assms(3,4)] by blast
  have "snd (invoke_handler E st login cid fn args) = EvSimulate cid fn args # EvGetAddress login # tr"
    by (simp add: invoke_handler_def body try_catch_def split: sum.splits)
  then show ?thesis using False by simp
qed

theorem read_call_returns_without_submission_witness:
  "buildWithOp sample_env (SqlText ''CTOKEN'') ''balance'' [''GFROM''] = Inr balance_at
   \<and> isReadCall balance_at = Inr True
   \<and> needsNonInvokerSigningBy balance_at = Inr []
   \<and> retval_json balance_at = Inr ''100''
   \<and> invoke_handler sample_env empty_store ''u1'' (SqlText ''CTOKEN'') ''balance'' [''GFROM'']
       = (Envelope (Text ''100''), [EvSimulate (SqlText ''CTOKEN'') ''balance'' [''GFROM'']])
   \<and> buildWithOp sample_env (SqlText ''CTOKEN'') ''transfer'' [''GFROM'', ''GTO'', ''5''] = Inr transfer_at
   \<and> isReadCall transfer_at = Inr False
   \<and> needsNonInvokerSigningBy transfer_at = Inr [''GFROM'']
   \<and> retval_json transfer_at = Inr ''null''
   \<and> snd (invoke_handler sample_env wallet_store ''u1'' (SqlText ''CTOKEN'') ''transfer'' [''GFROM'', ''GTO'', ''5''])
       \<noteq> [EvSimulate (SqlText ''CTOKEN'') ''transfer'' [''GFROM'', ''GTO'', ''5'']]
   \<and> take 2 (snd (invoke_handler sample_env wallet_store ''u1'' (SqlText ''CTOKEN'') ''transfer'' [''GFROM'', ''GTO'', ''5'']))
       = [EvSimulate (SqlText ''CTOKEN'') ''transfer'' [''GFROM'', ''GTO'', ''5''], EvGetAddress ''u1'']"
proof -
  have a: "buildWithOp sample_env (SqlText ''CTOKEN'') ''balance'' [''GFROM''] = Inr balance_at"
    by (simp add: sample_env_def)
  have b: "isReadCall balance_at = Inr True" by (simp add: balance_at_def)
  have c: "needsNonInvokerSigningBy balance_at = Inr []" by (simp add: balance_at_def)
  have d: "retval_json balance_at = Inr ''100''" by (simp add: balance_at_def)
  have read: "invoke_handler sample_env empty_store ''u1'' (SqlText ''CTOKEN'') ''balance'' [''GFROM'']
       = (Envelope (Text ''100''), [EvSimulate (SqlText ''CTOKEN'') ''balance'' [''GFROM'']])"
    using read_call_returns_without_submission [OF a b c d, of empty_store "''u1''"] by simp
  have a': "buildWithOp sample_env (SqlText ''CTOKEN'') ''transfer'' [''GFROM'', ''GTO'', ''5''] = Inr transfer_at"
    by (simp add: sample_env_def)
  have b': "isReadCall transfer_at = Inr False" by (simp add: transfer_at_def)
  have c': "needsNonInvokerSigningBy transfer_at = Inr [''GFROM'']" by (simp add: transfer_at_def)
  have d': "retval_json transfer_at = Inr ''null''" by (simp add: transfer_at_def)
  have mutation:
    "snd (invoke_handler sample_env wallet_store ''u1'' (SqlText ''CTOKEN'') ''transfer'' [''GFROM'', ''GTO'', ''5''])
       \<noteq> [EvSimulate (SqlText ''CTOKEN'') ''transfer'' [''GFROM'', ''GTO'', ''5'']]
     \<and> take 2 (snd (invoke_handler sample_env wallet_store ''u1'' (SqlText ''CTOKEN'') ''transfer'' [''GFROM'', ''GTO'', ''5'']))
       = [EvSimulate (SqlText ''CTOKEN'') ''transfer'' [''GFROM'', ''GTO'', ''5''], EvGetAddress ''u1'']"
    using read_call_returns_without_submission [OF a' b' c' d', of wallet_store "''u1''"] by simp
  show ?thesis
    using a b c d read a' b' c' d' mutation by blast
qed

text \<open>
  C1 as stated fails: \<open>increment\<close> writes contract storage and needs nobody's
  authorization. The simulation reports no signer other than the invoker, the SDK's flag
  \<open>isReadCall\<close> is false (it also asks for an empty write set), and the handler signs and
  submits.
\<close>

theorem classification_ignores_signers_counterexample:
  "buildWithOp sample_env (SqlText ''CCOUNTER'') ''increment'' [] = Inr increment_at
   \<and> needsNonInvokerSigningBy increment_at = Inr []
   \<and> invoke_handler sample_env wallet_store ''u1'' (SqlText ''CCOUNTER'') ''increment'' []
       = (Envelope (Json_call ''1'' ''SUCCESS''),
          [EvSimulate (SqlText ''CCOUNTER'') ''increment'' [], EvGetAddress ''u1'', EvSign (SqlText ''CWALLET'') (SqlText ''SFRESH''), EvSend])"
  by code_simp

text \<open>
  C3. For a user without a wallet record, no invocation of a synthesized tool ever
  calls the signer or the relay. If the call was simulated and found not to be a read
  (the classification, which needs the simulation), the wallet lookup is the next and
  last step: it throws the store's missing-row error, the handler catches it and
  answers with the error envelope.
\<close>

theorem mutation_without_wallet_fails_before_submission:
  assumes "wallet_records (column_affinity E) st login = []"
  shows "EvSend \<notin> set (snd (invoke_handler E st login cid fn args))
       \<and> (\<forall>address sk. EvSign address sk \<notin> set (snd (invoke_handler E st login cid fn args)))
       \<and> (buildWithOp E cid fn args = Inr at \<and> isReadCall at = Inr False
          \<and> needsNonInvokerSigningBy at = Inr ns \<and> retval_json at = Inr json
          \<longrightarrow> invoke_handler E st login cid fn args
                = (Envelope (Json_error OneRowError), [EvSimulate cid fn args, EvGetAddress login]))"
proof -
  have no_wallet: "getAddress (column_affinity E) st login = Inl OneRowError"
    using assms by (rule getAddress_no_record)
  have no_send: "EvSend \<notin> set (snd (invoke_handler E st login cid fn args))"
    using send_only_on_mutation [of E st login cid fn args] no_wallet by auto
  have no_sign: "EvSign address sk \<notin> set (snd (invoke_handler E st login cid fn args))" for address sk
    using no_wallet
    by (auto simp: invoke_handler_def invoke_body_def try_catch_def andThen_def call_def local_def
        split: sum.splits prod.splits if_splits)
  have fails: "invoke_handler E st login cid fn args
                = (Envelope (Json_error OneRowError), [EvSimulate cid fn args, EvGetAddress login])"
    if "buildWithOp E cid fn args = Inr at" "isReadCall at = Inr False"
       "needsNonInvokerSigningBy at = Inr ns" "retval_json at = Inr json"
    using invoke_body_no_wallet [OF that assms] by (simp add: invoke_handler_def try_catch_Inl)
  show ?thesis using no_send no_sign fails by blast
qed

theorem mutation_without_wallet_fails_before_submission_witness:
  "wallet_records (column_affinity sample_env) empty_store ''u1'' = []
   \<and> buildWithOp sample_env (SqlText ''CTOKEN'') ''transfer'' [''GFROM'', ''GTO'', ''5''] = Inr transfer_at
   \<and> isReadCall transfer_at = Inr False
   \<and> invoke_handler sample_env empty_store ''u1'' (SqlText ''CTOKEN'') ''transfer'' [''GFROM'', ''GTO'', ''5'']
       = (Envelope (Json_error OneRowError),
          [EvSimulate (SqlText ''CTOKEN'') ''transfer'' [''GFROM'', ''GTO'', ''5''], EvGetAddress ''u1''])"
proof -
  have w: "wallet_records (column_affinity sample_env) empty_store ''u1'' = []"
    by (simp add: wallet_records_def empty_store_def)
  have a: "buildWithOp sample_env (SqlText ''CTOKEN'') ''transfer'' [''GFROM'', ''GTO'', ''5''] = Inr transfer_at"
    by (simp add: sample_env_def)
  have b: "isReadCall transfer_at = Inr False \<and> needsNonInvokerSigningBy transfer_at = Inr [''GFROM'']
           \<and> retval_json transfer_at = Inr ''null''"
    by (simp add: transfer_at_def)
  show ?thesis
    using w a b
      mutation_without_wallet_fails_before_submission [where E = sample_env and st = empty_store
        and login = "''u1''" and cid = "SqlText ''CTOKEN''" and fn = "''transfer''"
        and args = "[''GFROM'', ''GTO'', ''5'']" and at = transfer_at and ns = "[''GFROM'']"
        and json = "''null''", OF w]
    by simp
qed

section \<open>Deployment\<close>

lemma andThen_Inr: "andThen (Inr x, tr) f = (fst (f x), tr @ snd (f x))"
  by (simp add: andThen_def split: prod.splits)

lemma andThen_Inl: "andThen (Inl e, tr) f = (Inl e, tr)"
  by (simp add: andThen_def)

lemmas run_simps = call_def local_def throws_def andThen_Inr andThen_Inl

lemma deploy_signed:
  assumes "Client_deploy E \<lparr>owner = own, name = nm, symbol = smb, decimals = 0, initial_supply = supply, cap = cp\<rparr> = Inr at"
    and "signAuthEntries E at = None"
  shows "deployNewFungiblePausableToken E own nm smb supply cp =
           (case server_send E at of
              Inl e \<Rightarrow> Inl e
            | Inr res \<Rightarrow> (case retval_contractId at of Inl e \<Rightarrow> Inl e | Inr c \<Rightarrow> Inr (res, c)),
            [EvDeploy \<lparr>owner = own, name = nm, symbol = smb, decimals = 0, initial_supply = supply, cap = cp\<rparr>,
             EvSignAuthEntries, EvSend])"
  using assms
  by (simp add: deployNewFungiblePausableToken_def Let_def run_simps split: sum.splits)

lemma deploy_sign_failed:
  assumes "Client_deploy E \<lparr>owner = own, name = nm, symbol = smb, decimals = 0, initial_supply = supply, cap = cp\<rparr> = Inr at"
    and "signAuthEntries E at = Some e"
  shows "deployNewFungiblePausableToken E own nm smb supply cp =
           (Inl e,
            [EvDeploy \<lparr>owner = own, name = nm, symbol = smb, decimals = 0, initial_supply = supply, cap = cp\<rparr>,
             EvSignAuthEntries])"
  using assms
  by (simp add: deployNewFungiblePausableToken_def Let_def run_simps)

text \<open>
  C5, as the code has it. \<open>deployNewFungiblePausableToken\<close> accepts \<open>owner\<close>, \<open>name\<close>,
  \<open>symbol\<close>, \<open>initial_supply\<close> and \<open>cap\<close>, and hands \<open>Client.deploy\<close> these five with
  \<open>decimals\<close> fixed at 0. There is no read
  path: whatever the assembled transaction says, \<open>isReadCall\<close> included, the
  authorization entries are signed next, and once they are signed the transaction is
  sent to the relay. When the relay accepts it, the result carries the contract address
  of the simulation's return value, and the \<open>deployToken\<close> tool, called by a user whose
  wallet address is \<open>own\<close>, answers with that result.
\<close>

theorem deploy_always_signs_and_submits:
  assumes "Client_deploy E \<lparr>owner = own, name = nm, symbol = smb, decimals = 0, initial_supply = supply, cap = cp\<rparr> = Inr at"
  shows "snd (deployNewFungiblePausableToken E own nm smb supply cp)
           = [EvDeploy \<lparr>owner = own, name = nm, symbol = smb, decimals = 0, initial_supply = supply, cap = cp\<rparr>,
              EvSignAuthEntries] @ (if signAuthEntries E at = None then [EvSend] else [])
       \<and> (signAuthEntries E at = None \<and> server_send E at = Inr res \<and> retval_contractId at = Inr contractId
            \<longrightarrow> fst (deployNewFungiblePausableToken E own nm smb supply cp) = Inr (res, contractId))
       \<and> (signAuthEntries E at = None \<and> server_send E at = Inr res \<and> retval_contractId at = Inr contractId
            \<and> getAddress (column_affinity E) st login = Inr (own, sk)
            \<longrightarrow> deployToken_handler E st login nm smb supply cp
                  = (Envelope (Json_deployed res contractId),
                     [EvGetAddress login,
                      EvDeploy \<lparr>owner = own, name = nm, symbol = smb, decimals = 0, initial_supply = supply, cap = cp\<rparr>,
                      EvSignAuthEntries, EvSend]))"
proof (cases "signAuthEntries E at")
  case None
  note run = deploy_signed [OF assms None]
  have tool: "deployToken_handler E st login nm smb supply cp
                  = (Envelope (Json_deployed res contractId),
                     [EvGetAddress login,
                      EvDeploy \<lparr>owner = own, name = nm, symbol = smb, decimals = 0, initial_supply = supply, cap = cp\<rparr>,
                      EvSignAuthEntries, EvSend])"
    if "server_send E at = Inr res" "retval_contractId at = Inr contractId"
       "getAddress (column_affinity E) st login = Inr (own, sk)"
    using that run
    by (simp add: deployToken_handler_def deployToken_body_def run_simps tuple_truthy_def try_catch_def)
  show ?thesis using None run tool by simp
next
  case (Some e)
  show ?thesis using Some deploy_sign_failed [OF assms Some] by simp
qed

theorem deploy_always_signs_and_submits_witness:
  "Client_deploy (sample_env\<lparr>Client_deploy := \<lambda>args. Inr (deploy_at\<lparr>isReadCall := Inr True\<rparr>)\<rparr>)
      \<lparr>owner = SqlText ''CWALLET'', name = ''Tok'', symbol = ''TK'', decimals = 0, initial_supply = 100, cap = 1000\<rparr>
     = Inr (deploy_at\<lparr>isReadCall := Inr True\<rparr>)
   \<and> getAddress (column_affinity sample_env) wallet_store ''u1'' = Inr (SqlText ''CWALLET'', SqlText ''SFRESH'')
   \<and> deployToken_handler (sample_env\<lparr>Client_deploy := \<lambda>args. Inr (deploy_at\<lparr>isReadCall := Inr True\<rparr>)\<rparr>)
        wallet_store ''u1'' ''Tok'' ''TK'' 100 1000
       = (Envelope (Json_deployed ''SUCCESS'' ''CNEW''),
          [EvGetAddress ''u1'',
           EvDeploy \<lparr>owner = SqlText ''CWALLET'', name = ''Tok'', symbol = ''TK'', decimals = 0, initial_supply = 100, cap = 1000\<rparr>,
           EvSignAuthEntries, EvSend])"
proof -
  let ?E = "sample_env\<lparr>Client_deploy := \<lambda>args. Inr (deploy_at\<lparr>isReadCall := Inr True\<rparr>)\<rparr>"
  let ?at = "deploy_at\<lparr>isReadCall := Inr True\<rparr>"
  have a: "Client_deploy ?E \<lparr>owner = SqlText ''CWALLET'', name = ''Tok'', symbol = ''TK'', decimals = 0, initial_supply = 100, cap = 1000\<rparr> = Inr ?at"
    by simp
  have b: "signAuthEntries ?E ?at = None \<and> server_send ?E ?at = Inr ''SUCCESS''"
    by (simp add: sample_env_def)
  have c: "retval_contractId ?at = Inr ''CNEW''"
    by (simp add: deploy_at_def)
  have d: "getAddress (column_affinity ?E) wallet_store ''u1'' = Inr (SqlText ''CWALLET'', SqlText ''SFRESH'')"
    by (simp add: getAddress_def wallet_store_def sample_env_def sample_affinity_def is_digit_def)
  show ?thesis
    using a b c d
      deploy_always_signs_and_submits [OF a, of "''SUCCESS''" "''CNEW''" wallet_store "''u1''" "SqlText ''SFRESH''"]
    by simp
qed

text \<open>
  C5 as stated fails in what the operation accepts: no caller passes \<open>decimals\<close>. The
  \<open>deployToken\<close> tool takes a name, a symbol, an initial supply and a cap, reads the owner
  from the caller's wallet record, and \<open>deployNewFungiblePausableToken\<close> writes 0 for
  \<open>decimals\<close> into the constructor arguments.
\<close>

theorem deploy_decimals_counterexample:
  "deployToken_handler sample_env wallet_store ''u1'' ''Tok'' ''TK'' 100 1000
     = (Envelope (Json_deployed ''SUCCESS'' ''CNEW''),
        [EvGetAddress ''u1'',
         EvDeploy \<lparr>owner = SqlText ''CWALLET'', name = ''Tok'', symbol = ''TK'', decimals = 0,
                   initial_supply = 100, cap = 1000\<rparr>,
         EvSignAuthEntries, EvSend])
   \<and> snd (deployNewFungiblePausableToken sample_env (SqlText ''GOWNER'') ''Tok'' ''TK'' 100 1000)
       = [EvDeploy \<lparr>owner = SqlText ''GOWNER'', name = ''Tok'', symbol = ''TK'', decimals = 0,
                    initial_supply = 100, cap = 1000\<rparr>,
          EvSignAuthEntries, EvSend]"
  by code_simp

section \<open>Session initialization\<close>

text \<open>\<open>js_includes\<close> is occurrence as a contiguous part.\<close>

lemma js_includes_iff: "js_includes s pat \<longleftrightarrow> (\<exists>ps ss. s = ps @ pat @ ss)"
proof (induction s)
  case Nil
  then show ?case by auto
next
  case (Cons c cs)
  have "(\<exists>ps ss. c # cs = ps @ pat @ ss) \<longleftrightarrow> prefix pat (c # cs) \<or> (\<exists>ps ss. cs = ps @ pat @ ss)"
  proof
    assume "\<exists>ps ss. c # cs = ps @ pat @ ss"
    then obtain ps ss where eq: "c # cs = ps @ pat @ ss" by blast
    show "prefix pat (c # cs) \<or> (\<exists>ps ss. cs = ps @ pat @ ss)"
    proof (cases ps)
      case Nil
      then show ?thesis using eq by (auto simp: prefix_def)
    next
      case (Cons p ps')
      then have "cs = ps' @ pat @ ss" using eq by simp
      then show ?thesis by blast
    qed
  next
    assume "prefix pat (c # cs) \<or> (\<exists>ps ss. cs = ps @ pat @ ss)"
    then show "\<exists>ps ss. c # cs = ps @ pat @ ss"
    proof
      assume "prefix pat (c # cs)"
      then obtain ss where "c # cs = [] @ pat @ ss" by (auto simp: prefix_def)
      then show ?thesis by blast
    next
      assume "\<exists>ps ss. cs = ps @ pat @ ss"
      then obtain ps ss where "cs = ps @ pat @ ss" by blast
      then have "c # cs = (c # ps) @ pat @ ss" by simp
      then show ?thesis by blast
    qed
  qed
  then show ?case using Cons.IH by simp
qed

lemma register_funcs_adds:
  "register_funcs E cn cid fs reg = Inr reg' \<Longrightarrow>
     \<exists>new. reg' = reg @ new \<and>
       (\<forall>t \<in> set new. \<exists>f \<in> set fs. \<not> js_includes (func_name f) ''__'' \<and> t = contract_tool E cn cid f)"
proof (induction fs arbitrary: reg)
  case Nil
  then show ?case by simp
next
  case (Cons f fs)
  show ?case
  proof (cases "js_includes (func_name f) ''__''")
    case True
    then have "register_funcs E cn cid fs reg = Inr reg'" using Cons.prems by simp
    from Cons.IH [OF this] show ?thesis by auto
  next
    case False
    then have ok: "server_tool_throws E reg (contract_tool E cn cid f) = None"
      and rest: "register_funcs E cn cid fs (reg @ [contract_tool E cn cid f]) = Inr reg'"
      using Cons.prems by (auto simp: Let_def split: option.splits)
    from Cons.IH [OF rest] obtain new where new: "reg' = (reg @ [contract_tool E cn cid f]) @ new"
      "\<forall>t \<in> set new. \<exists>f \<in> set fs. \<not> js_includes (func_name f) ''__'' \<and> t = contract_tool E cn cid f"
      by blast
    have "reg' = reg @ (contract_tool E cn cid f # new)" using new(1) by simp
    moreover have "\<forall>t \<in> set (contract_tool E cn cid f # new).
        \<exists>g \<in> set (f # fs). \<not> js_includes (func_name g) ''__'' \<and> t = contract_tool E cn cid g"
      using new(2) False by auto
    ultimately show ?thesis by blast
  qed
qed

lemma register_contracts_adds:
  "register_contracts E cs reg = Inr reg' \<Longrightarrow>
     \<exists>new. reg' = reg @ new \<and>
       (\<forall>t \<in> set new. \<exists>cn cid f. (cn, cid) \<in> set cs \<and> \<not> js_includes (func_name f) ''__''
                                  \<and> t = contract_tool E cn cid f)"
proof (induction cs arbitrary: reg)
  case Nil
  then show ?case by simp
next
  case (Cons c cs)
  obtain cn cid where c: "c = (cn, cid)" by (cases c)
  have widen: "\<exists>cn cid f. (cn, cid) \<in> set (c # cs) \<and> \<not> js_includes (func_name f) ''__''
                  \<and> t = contract_tool E cn cid f"
    if "\<exists>cn cid f. (cn, cid) \<in> set cs \<and> \<not> js_includes (func_name f) ''__''
                  \<and> t = contract_tool E cn cid f" for t
    using that by (metis list.set_intros(2))
  show ?case
  proof (cases "getContractWasmByContractId E cid")
    case (Inl e)
    then have "register_contracts E cs reg = Inr reg'" using Cons.prems c by simp
    from Cons.IH [OF this] obtain new where new: "reg' = reg @ new"
      "\<forall>t \<in> set new. \<exists>cn cid f. (cn, cid) \<in> set cs \<and> \<not> js_includes (func_name f) ''__''
                                  \<and> t = contract_tool E cn cid f"
      by blast
    have "\<forall>t \<in> set new. \<exists>cn cid f. (cn, cid) \<in> set (c # cs) \<and> \<not> js_includes (func_name f) ''__''
                                  \<and> t = contract_tool E cn cid f"
      using new(2) widen by blast
    then show ?thesis using new(1) by blast
  next
    case fetched: (Inr wasm)
    show ?thesis
    proof (cases "Client_fromWasm E wasm cid")
      case (Inl e)
      then show ?thesis using Cons.prems c fetched by simp
    next
      case decoded: (Inr funcs)
      show ?thesis
      proof (cases "register_funcs E cn cid funcs reg")
        case (Inl e)
        then show ?thesis using Cons.prems c fetched decoded by simp
      next
        case (Inr mid)
        then have rest: "register_contracts E cs mid = Inr reg'"
          using Cons.prems c fetched decoded by simp
        from register_funcs_adds [OF Inr] obtain new1 where new1: "mid = reg @ new1"
          "\<forall>t \<in> set new1. \<exists>f \<in> set funcs. \<not> js_includes (func_name f) ''__'' \<and> t = contract_tool E cn cid f"
          by blast
        from Cons.IH [OF rest] obtain new2 where new2: "reg' = mid @ new2"
          "\<forall>t \<in> set new2. \<exists>cn cid f. (cn, cid) \<in> set cs \<and> \<not> js_includes (func_name f) ''__''
                                  \<and> t = contract_tool E cn cid f"
          by blast
        have eq: "reg' = reg @ (new1 @ new2)" using new1(1) new2(1) by simp
        have "\<exists>cn cid f. (cn, cid) \<in> set (c # cs) \<and> \<not> js_includes (func_name f) ''__''
                  \<and> t = contract_tool E cn cid f" if "t \<in> set (new1 @ new2)" for t
        proof (cases "t \<in> set new1")
          case True
          then obtain f where "\<not> js_includes (func_name f) ''__''" "t = contract_tool E cn cid f"
            using new1(2) by blast
          moreover have "(cn, cid) \<in> set (c # cs)" using c by simp
          ultimately show ?thesis by blast
        next
          case False
          then have "t \<in> set new2" using that by simp
          then show ?thesis using new2(2) widen by blast
        qed
        then show ?thesis using eq by blast
      qed
    qed
  qed
qed

lemma register_tools_adds: "register_tools E ts reg = Inr reg' \<Longrightarrow> reg' = reg @ ts"
proof (induction ts arbitrary: reg)
  case Nil
  then show ?case by simp
next
  case (Cons t ts)
  then have "register_tools E ts (reg @ [t]) = Inr reg'"
    by (auto split: option.splits)
  from Cons.IH [OF this] show ?case by simp
qed

lemma register_funcs_skips_marked:
  "register_funcs E cn cid fs reg
     = register_funcs E cn cid (filter (\<lambda>f. \<not> js_includes (func_name f) ''__'') fs) reg"
  by (induction fs arbitrary: reg) (auto simp: Let_def split: option.splits)

text \<open>
  C9. A function whose name contains the constructor marker \<^verbatim>\<open>"__"\<close> gets no tool.
  The loop over the functions of a descriptor runs exactly as on the descriptor without
  the marked functions, whatever \<open>server.tool\<close> does; and in the tool list of a completed
  initialization no tool invokes a contract function whose name contains the marker.
\<close>

theorem constructor_marker_never_registered:
  "register_funcs E cn cid fs reg
     = register_funcs E cn cid (filter (\<lambda>f. \<not> js_includes (func_name f) ''__'') fs) reg
   \<and> (init E st login = Inr tools \<longrightarrow>
        (\<forall>t \<in> set tools. \<forall>c fname. tool_handler t = InvokeContract c fname \<longrightarrow> \<not> js_includes fname ''__''))"
proof -
  have "\<not> js_includes fname ''__''"
    if run: "init E st login = Inr tools" and t: "t \<in> set tools" and h: "tool_handler t = InvokeContract c fname"
    for t c fname
  proof -
    obtain mid where mid: "register_contracts E (getContracts (column_affinity E) (value_le E) st login) [] = Inr mid"
      and fixed: "register_tools E fixed_tools mid = Inr tools"
      using run by (auto simp: init_def split: sum.splits)
    have tools: "tools = mid @ fixed_tools"
      using register_tools_adds [OF fixed] .
    have "t \<notin> set fixed_tools"
      using h by (auto simp: fixed_tools_def)
    then have "t \<in> set mid" using t tools by simp
    then obtain cn' cid' f where "\<not> js_includes (func_name f) ''__''" "t = contract_tool E cn' cid' f"
      using register_contracts_adds [OF mid] by auto
    then show ?thesis using h by (simp add: contract_tool_def)
  qed
  then show ?thesis using register_funcs_skips_marked by blast
qed

theorem constructor_marker_never_registered_witness:
  "js_includes (func_name (hd token_funcs)) ''__''
   \<and> register_funcs sample_env (SqlText ''Token'') (SqlText ''CTOKEN'') token_funcs []
       = register_funcs sample_env (SqlText ''Token'') (SqlText ''CTOKEN'') (tl token_funcs) []
   \<and> (\<exists>tools. init sample_env wallet_store ''u1'' = Inr tools
        \<and> map tool_name tools = [''Counter_increment'', ''Token_balance'', ''Token_transfer'',
               ''setContractAddress'', ''getContractAddresses'', ''removeContractAddress'', ''setWallet'',
               ''getWallet'', ''deployToken'']
        \<and> (\<forall>t \<in> set tools. \<forall>c fname. tool_handler t = InvokeContract c fname \<longrightarrow> \<not> js_includes fname ''__''))"
proof -
  have a: "js_includes (func_name (hd token_funcs)) ''__''"
    by (simp add: token_funcs_def)
  have b: "filter (\<lambda>f. \<not> js_includes (func_name f) ''__'') token_funcs = tl token_funcs"
    by (simp add: token_funcs_def)
  have "map_sum id (map tool_name) (init sample_env wallet_store ''u1'')
          = Inr [''Counter_increment'', ''Token_balance'', ''Token_transfer'',
               ''setContractAddress'', ''getContractAddresses'', ''removeContractAddress'', ''setWallet'',
               ''getWallet'', ''deployToken'']"
    by code_simp
  then obtain tools where c: "init sample_env wallet_store ''u1'' = Inr tools"
    and d: "map tool_name tools = [''Counter_increment'', ''Token_balance'', ''Token_transfer'',
               ''setContractAddress'', ''getContractAddresses'', ''removeContractAddress'', ''setWallet'',
               ''getWallet'', ''deployToken'']"
    by (cases "init sample_env wallet_store ''u1''") auto
  show ?thesis
    using a b c d
      constructor_marker_never_registered [of sample_env "SqlText ''Token''" "SqlText ''CTOKEN''"
        token_funcs "[]" wallet_store "''u1''" tools]
    by simp
qed

text \<open>The loop over the tracked contracts passes over a contract whose fetch fails.\<close>

lemma register_contracts_skips_failed:
  assumes "getContractWasmByContractId E contractId = Inl e"
  shows "register_contracts E (before @ (contract_name, contractId) # after) reg
           = register_contracts E (before @ after) reg"
proof (induction before arbitrary: reg)
  case Nil
  show ?case using assms by simp
next
  case (Cons c cs)
  obtain cn cid where c: "c = (cn, cid)" by (cases c)
  show ?case
    using Cons.IH by (simp add: c split: sum.splits)
qed

text \<open>A loop that completes has registered every unmarked function of every contract
  whose descriptor was fetched and decoded.\<close>

lemma register_funcs_complete:
  assumes "register_funcs E cn cid fs reg = Inr reg'"
    and "f \<in> set fs" and "\<not> js_includes (func_name f) ''__''"
  shows "contract_tool E cn cid f \<in> set reg'"
  using assms
proof (induction fs arbitrary: reg)
  case Nil
  then show ?case by simp
next
  case (Cons g gs)
  show ?case
  proof (cases "js_includes (func_name g) ''__''")
    case True
    then have rest: "register_funcs E cn cid gs reg = Inr reg'" using Cons.prems(1) by simp
    have "f \<in> set gs" using Cons.prems(2,3) True by auto
    then show ?thesis using Cons.IH [OF rest] Cons.prems(3) by simp
  next
    case False
    then have rest: "register_funcs E cn cid gs (reg @ [contract_tool E cn cid g]) = Inr reg'"
      using Cons.prems(1) by (auto simp: Let_def split: option.splits)
    show ?thesis
    proof (cases "f = g")
      case True
      obtain new where "reg' = (reg @ [contract_tool E cn cid g]) @ new"
        using register_funcs_adds [OF rest] by blast
      then show ?thesis using True by simp
    next
      case False
      then have "f \<in> set gs" using Cons.prems(2) by simp
      then show ?thesis using Cons.IH [OF rest] Cons.prems(3) by simp
    qed
  qed
qed

lemma register_contracts_complete:
  assumes "register_contracts E cs reg = Inr reg'"
    and "(cn, cid) \<in> set cs"
    and "getContractWasmByContractId E cid = Inr wasm" and "Client_fromWasm E wasm cid = Inr funcs"
    and "f \<in> set funcs" and "\<not> js_includes (func_name f) ''__''"
  shows "contract_tool E cn cid f \<in> set reg'"
  using assms(1,2)
proof (induction cs arbitrary: reg)
  case Nil
  then show ?case by simp
next
  case (Cons c cs)
  obtain cn' cid' where c: "c = (cn', cid')" by (cases c)
  show ?case
  proof (cases "getContractWasmByContractId E cid'")
    case (Inl e)
    then have rest: "register_contracts E cs reg = Inr reg'" using Cons.prems(1) c by simp
    have "cid' \<noteq> cid" using Inl assms(3) by auto
    then have "(cn, cid) \<in> set cs" using Cons.prems(2) c by simp
    then show ?thesis using Cons.IH [OF rest] by simp
  next
    case fetched: (Inr wasm')
    show ?thesis
    proof (cases "Client_fromWasm E wasm' cid'")
      case (Inl e)
      then show ?thesis using Cons.prems(1) c fetched by simp
    next
      case decoded: (Inr funcs')
      show ?thesis
      proof (cases "register_funcs E cn' cid' funcs' reg")
        case (Inl e)
        then show ?thesis using Cons.prems(1) c fetched decoded by simp
      next
        case (Inr mid)
        then have rest: "register_contracts E cs mid = Inr reg'"
          using Cons.prems(1) c fetched decoded by simp
        show ?thesis
        proof (cases "(cn, cid) = (cn', cid')")
          case True
          then have "wasm' = wasm" "funcs' = funcs"
            using fetched decoded assms(3,4) by auto
          then have "contract_tool E cn cid f \<in> set mid"
            using register_funcs_complete [OF Inr] True assms(5,6) by simp
          moreover obtain new where "reg' = mid @ new"
            using register_contracts_adds [OF rest] by blast
          ultimately show ?thesis by simp
        next
          case False
          then have "(cn, cid) \<in> set cs" using Cons.prems(2) c by auto
          then show ?thesis using Cons.IH [OF rest] by simp
        qed
      qed
    qed
  qed
qed

text \<open>With a tool server that accepts every tool, the loops complete unless a fetched
  descriptor fails to decode.\<close>

lemma register_funcs_total:
  assumes "\<forall>reg t. server_tool_throws E reg t = None"
  shows "\<exists>reg'. register_funcs E cn cid fs reg = Inr reg'"
  using assms by (induction fs arbitrary: reg) (simp_all add: Let_def)

lemma register_tools_total:
  assumes "\<forall>reg t. server_tool_throws E reg t = None"
  shows "\<exists>reg'. register_tools E ts reg = Inr reg'"
  using assms by (induction ts arbitrary: reg) simp_all

lemma register_contracts_total:
  assumes "\<forall>reg t. server_tool_throws E reg t = None"
    and "\<forall>(cn, cid) \<in> set cs. \<forall>wasm. getContractWasmByContractId E cid = Inr wasm
            \<longrightarrow> (\<exists>funcs. Client_fromWasm E wasm cid = Inr funcs)"
  shows "\<exists>reg'. register_contracts E cs reg = Inr reg'"
  using assms(2)
proof (induction cs arbitrary: reg)
  case Nil
  show ?case by simp
next
  case (Cons c cs)
  obtain cn cid where c: "c = (cn, cid)" by (cases c)
  have rest: "\<exists>reg'. register_contracts E cs reg = Inr reg'" for reg
    using Cons.IH Cons.prems by simp
  show ?case
  proof (cases "getContractWasmByContractId E cid")
    case (Inl e)
    then show ?thesis using rest c by simp
  next
    case (Inr wasm)
    then obtain funcs where funcs: "Client_fromWasm E wasm cid = Inr funcs"
      using Cons.prems c by auto
    obtain mid where mid: "register_funcs E cn cid funcs reg = Inr mid"
      using register_funcs_total [OF assms(1)] by blast
    show ?thesis using rest [of mid] c Inr funcs mid by simp
  qed
qed

text \<open>
  C4. Let the descriptor fetch fail for one of a user's tracked contracts. Then session
  initialization runs exactly as for a user who tracks the other contracts only: the
  same outcome, the same tools. When it completes, its tools are the fixed tools and, for
  each other tracked contract whose descriptor is fetched and decoded, a tool for every
  function without the constructor marker. And it does complete whenever the
  descriptors fetched for the other contracts decode and the tool server accepts the
  tools: the failed fetch alone never aborts it.
\<close>

theorem fetch_failure_skips_contract:
  assumes "getContracts (column_affinity E) (value_le E) st login = before @ (bname, bid) # after"
    and "getContractWasmByContractId E bid = Inl e"
  shows "(\<forall>st'. getContracts (column_affinity E) (value_le E) st' login = before @ after
            \<longrightarrow> init E st login = init E st' login)
       \<and> (\<forall>tools. init E st login = Inr tools \<longrightarrow>
             set fixed_tools \<subseteq> set tools
           \<and> (\<forall>(cn, cid) \<in> set (before @ after). \<forall>wasm funcs.
                  getContractWasmByContractId E cid = Inr wasm \<and> Client_fromWasm E wasm cid = Inr funcs
                  \<longrightarrow> (\<forall>f \<in> set funcs. \<not> js_includes (func_name f) ''__''
                         \<longrightarrow> contract_tool E cn cid f \<in> set tools)))
       \<and> ((\<forall>reg t. server_tool_throws E reg t = None)
            \<and> (\<forall>(cn, cid) \<in> set (before @ after). \<forall>wasm. getContractWasmByContractId E cid = Inr wasm
                  \<longrightarrow> (\<exists>funcs. Client_fromWasm E wasm cid = Inr funcs))
           \<longrightarrow> (\<exists>tools. init E st login = Inr tools))"
proof -
  have skip: "register_contracts E (before @ (bname, bid) # after) []
                = register_contracts E (before @ after) []"
    using assms(2) by (rule register_contracts_skips_failed)
  have same: "init E st login = init E st' login"
    if "getContracts (column_affinity E) (value_le E) st' login = before @ after" for st'
    using skip that assms(1) by (simp add: init_def)
  have registered:
    "set fixed_tools \<subseteq> set tools
     \<and> (\<forall>(cn, cid) \<in> set (before @ after). \<forall>wasm funcs.
            getContractWasmByContractId E cid = Inr wasm \<and> Client_fromWasm E wasm cid = Inr funcs
            \<longrightarrow> (\<forall>f \<in> set funcs. \<not> js_includes (func_name f) ''__''
                   \<longrightarrow> contract_tool E cn cid f \<in> set tools))"
    if run: "init E st login = Inr tools" for tools
  proof -
    obtain mid where mid: "register_contracts E (before @ after) [] = Inr mid"
      and fixed: "register_tools E fixed_tools mid = Inr tools"
      using run assms(1) skip by (auto simp: init_def split: sum.splits)
    have tools: "tools = mid @ fixed_tools"
      using register_tools_adds [OF fixed] .
    have "contract_tool E cn cid f \<in> set tools"
      if "(cn, cid) \<in> set (before @ after)" "getContractWasmByContractId E cid = Inr wasm"
        "Client_fromWasm E wasm cid = Inr funcs" "f \<in> set funcs" "\<not> js_includes (func_name f) ''__''"
      for cn cid wasm funcs f
      using register_contracts_complete [OF mid that] tools by simp
    then show ?thesis using tools by fastforce
  qed
  have completes: "\<exists>tools. init E st login = Inr tools"
    if quiet: "\<forall>reg t. server_tool_throws E reg t = None"
      and decode: "\<forall>(cn, cid) \<in> set (before @ after). \<forall>wasm. getContractWasmByContractId E cid = Inr wasm
                  \<longrightarrow> (\<exists>funcs. Client_fromWasm E wasm cid = Inr funcs)"
  proof -
    obtain mid where mid: "register_contracts E (before @ after) [] = Inr mid"
      using register_contracts_total [OF quiet decode] by blast
    obtain tools where "register_tools E fixed_tools mid = Inr tools"
      using register_tools_total [OF quiet] by blast
    then show ?thesis using mid skip assms(1) by (simp add: init_def)
  qed
  show ?thesis using same registered completes by blast
qed

theorem fetch_failure_skips_contract_witness:
  "getContracts (column_affinity sample_env) (value_le sample_env) wallet_store ''u1''
     = [(SqlText ''Counter'', SqlText ''CCOUNTER'')] @ (SqlText ''Missing'', SqlText ''CMISSING'')
         # [(SqlText ''Token'', SqlText ''CTOKEN'')]
   \<and> getContractWasmByContractId sample_env (SqlText ''CMISSING'') = Inl (External ''contract not found'')
   \<and> getContracts (column_affinity sample_env) (value_le sample_env) healthy_store ''u1''
       = [(SqlText ''Counter'', SqlText ''CCOUNTER'')] @ [(SqlText ''Token'', SqlText ''CTOKEN'')]
   \<and> init sample_env wallet_store ''u1'' = init sample_env healthy_store ''u1''
   \<and> map_sum id (map tool_handler) (init sample_env wallet_store ''u1'')
       = Inr [InvokeContract (SqlText ''CCOUNTER'') ''increment'',
              InvokeContract (SqlText ''CTOKEN'') ''balance'',
              InvokeContract (SqlText ''CTOKEN'') ''transfer'',
              SetContractAddress, GetContractAddresses, RemoveContractAddress, SetWallet, GetWallet,
              DeployToken]
   \<and> (\<exists>tools. init sample_env wallet_store ''u1'' = Inr tools
        \<and> contract_tool sample_env (SqlText ''Counter'') (SqlText ''CCOUNTER'') (hd counter_funcs) \<in> set tools
        \<and> contract_tool sample_env (SqlText ''Token'') (SqlText ''CTOKEN'') (last token_funcs) \<in> set tools)
   \<and> (\<exists>tools. init quiet_env wallet_store ''u1'' = Inr tools)"
proof -
  let ?before = "[(SqlText ''Counter'', SqlText ''CCOUNTER'')]"
  let ?after = "[(SqlText ''Token'', SqlText ''CTOKEN'')]"
  have listed: "getContracts sample_affinity sample_value_le wallet_store ''u1''
        = [(SqlText ''Counter'', SqlText ''CCOUNTER''), (SqlText ''Missing'', SqlText ''CMISSING''),
           (SqlText ''Token'', SqlText ''CTOKEN'')]"
    by code_simp
  have listed': "getContracts sample_affinity sample_value_le healthy_store ''u1''
        = [(SqlText ''Counter'', SqlText ''CCOUNTER''), (SqlText ''Token'', SqlText ''CTOKEN'')]"
    by code_simp
  have engine: "column_affinity sample_env = sample_affinity" "value_le sample_env = sample_value_le"
    "column_affinity quiet_env = sample_affinity" "value_le quiet_env = sample_value_le"
    by (simp_all add: sample_env_def quiet_env_def)
  have a: "getContracts (column_affinity sample_env) (value_le sample_env) wallet_store ''u1''
             = ?before @ (SqlText ''Missing'', SqlText ''CMISSING'') # ?after"
    using listed by (simp add: engine)
  have b: "getContractWasmByContractId sample_env (SqlText ''CMISSING'') = Inl (External ''contract not found'')"
    by (simp add: sample_env_def)
  have c: "getContracts (column_affinity sample_env) (value_le sample_env) healthy_store ''u1''
             = ?before @ ?after"
    using listed' by (simp add: engine)
  note T = fetch_failure_skips_contract [where E = sample_env and st = wallet_store and login = "''u1''"
      and before = ?before and bname = "SqlText ''Missing''" and bid = "SqlText ''CMISSING''"
      and after = ?after and e = "External ''contract not found''", OF a b]
  have same: "init sample_env wallet_store ''u1'' = init sample_env healthy_store ''u1''"
    using T c by blast
  have handlers: "map_sum id (map tool_handler) (init sample_env wallet_store ''u1'')
       = Inr [InvokeContract (SqlText ''CCOUNTER'') ''increment'',
              InvokeContract (SqlText ''CTOKEN'') ''balance'',
              InvokeContract (SqlText ''CTOKEN'') ''transfer'',
              SetContractAddress, GetContractAddresses, RemoveContractAddress, SetWallet, GetWallet,
              DeployToken]"
    by code_simp
  have fetched: "getContractWasmByContractId sample_env (SqlText ''CCOUNTER'') = Inr ''wasm-counter''"
    "Client_fromWasm sample_env ''wasm-counter'' (SqlText ''CCOUNTER'') = Inr counter_funcs"
    "getContractWasmByContractId sample_env (SqlText ''CTOKEN'') = Inr ''wasm-token''"
    "Client_fromWasm sample_env ''wasm-token'' (SqlText ''CTOKEN'') = Inr token_funcs"
    by (simp_all add: sample_env_def)
  have unmarked: "hd counter_funcs \<in> set counter_funcs" "\<not> js_includes (func_name (hd counter_funcs)) ''__''"
    "last token_funcs \<in> set token_funcs" "\<not> js_includes (func_name (last token_funcs)) ''__''"
    by (simp_all add: counter_funcs_def token_funcs_def)
  have present: "contract_tool sample_env (SqlText ''Counter'') (SqlText ''CCOUNTER'') (hd counter_funcs) \<in> set tools
        \<and> contract_tool sample_env (SqlText ''Token'') (SqlText ''CTOKEN'') (last token_funcs) \<in> set tools"
    if run: "init sample_env wallet_store ''u1'' = Inr tools" for tools
  proof -
    have all: "\<forall>(cn, cid) \<in> set (?before @ ?after). \<forall>wasm funcs.
                  getContractWasmByContractId sample_env cid = Inr wasm
                  \<and> Client_fromWasm sample_env wasm cid = Inr funcs
                  \<longrightarrow> (\<forall>f \<in> set funcs. \<not> js_includes (func_name f) ''__''
                         \<longrightarrow> contract_tool sample_env cn cid f \<in> set tools)"
      using T run by blast
    have "contract_tool sample_env (SqlText ''Counter'') (SqlText ''CCOUNTER'') (hd counter_funcs) \<in> set tools"
      using all fetched(1,2) unmarked(1,2) by fastforce
    moreover have "contract_tool sample_env (SqlText ''Token'') (SqlText ''CTOKEN'') (last token_funcs) \<in> set tools"
      using all fetched(3,4) unmarked(3,4) by fastforce
    ultimately show ?thesis by simp
  qed
  have a': "getContracts (column_affinity quiet_env) (value_le quiet_env) wallet_store ''u1''
             = ?before @ (SqlText ''Missing'', SqlText ''CMISSING'') # ?after"
    using listed by (simp add: engine)
  have b': "getContractWasmByContractId quiet_env (SqlText ''CMISSING'') = Inl (External ''contract not found'')"
    by (simp add: sample_env_def quiet_env_def)
  note Q = fetch_failure_skips_contract [where E = quiet_env and st = wallet_store and login = "''u1''"
      and before = ?before and bname = "SqlText ''Missing''" and bid = "SqlText ''CMISSING''"
      and after = ?after and e = "External ''contract not found''", OF a' b']
  have quiet: "\<forall>reg t. server_tool_throws quiet_env reg t = None"
    by (simp add: quiet_env_def)
  have decode: "\<forall>(cn, cid) \<in> set (?before @ ?after). \<forall>wasm. getContractWasmByContractId quiet_env cid = Inr wasm
                  \<longrightarrow> (\<exists>funcs. Client_fromWasm quiet_env wasm cid = Inr funcs)"
    by (simp add: quiet_env_def sample_env_def)
  have completes: "\<exists>tools. init quiet_env wallet_store ''u1'' = Inr tools"
    using Q quiet decode by blast
  obtain tools where run: "init sample_env wallet_store ''u1'' = Inr tools"
    using handlers by (cases "init sample_env wallet_store ''u1''") auto
  have registered: "\<exists>tools. init sample_env wallet_store ''u1'' = Inr tools
        \<and> contract_tool sample_env (SqlText ''Counter'') (SqlText ''CCOUNTER'') (hd counter_funcs) \<in> set tools
        \<and> contract_tool sample_env (SqlText ''Token'') (SqlText ''CTOKEN'') (last token_funcs) \<in> set tools"
    using run present [OF run] by blast
  show ?thesis
    using a b c same handlers registered completes by blast
qed

section \<open>Tool identifiers\<close>

lemma js_replace_set: "set (js_replace pat rep s) \<subseteq> set s \<union> set rep"
proof (induction s)
  case Nil
  show ?case by auto
next
  case (Cons c cs)
  have "set (drop (length pat) (c # cs)) \<subseteq> set (c # cs)"
    by (rule set_drop_subset)
  then show ?case using Cons.IH by auto
qed

lemma js_replace_length:
  "length rep \<le> length pat \<Longrightarrow> length (js_replace pat rep s) \<le> length s"
proof (induction s)
  case Nil
  then show ?case by auto
next
  case (Cons c cs)
  show ?case
  proof (cases "prefix pat (c # cs)")
    case True
    then have "length pat \<le> length (c # cs)" by (rule prefix_length_le)
    then show ?thesis using True Cons.prems by simp
  next
    case False
    then show ?thesis using Cons by simp
  qed
qed

lemma js_replace_absent: "\<not> js_includes s pat \<Longrightarrow> js_replace pat rep s = s"
  by (induction s) auto

lemma js_replace_first:
  assumes "pat \<noteq> []" and "\<not> js_includes (pre @ butlast pat) pat"
  shows "js_replace pat rep (pre @ pat @ post) = pre @ rep @ post"
  using assms(2)
proof (induction pre)
  case Nil
  have "prefix pat (pat @ post)" by simp
  then show ?case using assms(1) by (cases pat) auto
next
  case (Cons p pre)
  have no_here: "\<not> prefix pat (p # pre @ butlast pat)" and no_later: "\<not> js_includes (pre @ butlast pat) pat"
    using Cons.prems by auto
  have "\<not> prefix pat (p # pre @ pat @ post)"
  proof
    assume here: "prefix pat (p # pre @ pat @ post)"
    have short: "prefix (p # pre @ butlast pat) (p # pre @ pat @ post)"
    proof -
      have "pat = butlast pat @ [last pat]" using assms(1) by simp
      then have "p # pre @ pat @ post = (p # pre @ butlast pat) @ (last pat # post)"
        by (metis append.assoc append_Cons append_Nil)
      then show ?thesis by (metis prefixI)
    qed
    have "length pat \<le> length (p # pre @ butlast pat)" using assms(1) by simp
    then have "prefix pat (p # pre @ butlast pat)"
      using here short prefix_length_prefix by blast
    then show False using no_here by simp
  qed
  then show ?case using Cons.IH [OF no_later] by simp
qed

lemma replace_non_id_chars: "list_all is_id_char (replace_non_id s)"
  by (induction s) (auto simp: replace_non_id_def is_id_char_def)

text \<open>
  C8. The tool identifier is a function of the contract name and the function name
  alone. It is \<^verbatim>\<open>"<contractName>: <functionName>"\<close> with every code unit outside
  \<^verbatim>\<open>[a-zA-Z0-9_-]\<close> turned into an underscore, cut to its first 64 code units
  (\<open>sanitized\<close>), and then with the leftmost \<^verbatim>\<open>"__"\<close> of that string, if there is
  one, turned into a single underscore. The result consists of identifier characters
  only and has at most 64 of them.
\<close>

theorem toolName_derivation:
  "(let sanitized = take 64 (map (\<lambda>c. if is_id_char c then c else CHR ''_'') (contract_name @ '': '' @ fname))
    in toolName contract_name fname = js_replace ''__'' ''_'' sanitized
     \<and> list_all is_id_char (toolName contract_name fname)
     \<and> length (toolName contract_name fname) \<le> 64
     \<and> (\<not> js_includes sanitized ''__'' \<longrightarrow> toolName contract_name fname = sanitized)
     \<and> (\<forall>pre post. sanitized = pre @ ''__'' @ post \<and> \<not> js_includes (pre @ ''_'') ''__''
           \<longrightarrow> toolName contract_name fname = pre @ ''_'' @ post)
     \<and> (\<forall>contract_name' fname'. contract_name' = contract_name \<and> fname' = fname
           \<longrightarrow> toolName contract_name' fname' = toolName contract_name fname))"
proof -
  define sanitized where
    "sanitized = take 64 (map (\<lambda>c. if is_id_char c then c else CHR ''_'') (contract_name @ '': '' @ fname))"
  have eq: "toolName contract_name fname = js_replace ''__'' ''_'' sanitized"
    by (simp add: toolName_def substring0_def replace_non_id_def sanitized_def)
  have safe: "list_all is_id_char sanitized"
  proof -
    have "list_all is_id_char (replace_non_id (contract_name @ '': '' @ fname))"
      by (rule replace_non_id_chars)
    then have "\<forall>c \<in> set (replace_non_id (contract_name @ '': '' @ fname)). is_id_char c"
      by (simp add: list_all_iff)
    moreover have "set sanitized \<subseteq> set (replace_non_id (contract_name @ '': '' @ fname))"
      unfolding sanitized_def replace_non_id_def by (rule set_take_subset)
    ultimately show ?thesis by (auto simp: list_all_iff)
  qed
  have under: "is_id_char (CHR ''_'')"
    by (simp add: is_id_char_def)
  have chars: "list_all is_id_char (toolName contract_name fname)"
  proof -
    have "set (js_replace ''__'' ''_'' sanitized) \<subseteq> set sanitized \<union> set ''_''"
      by (rule js_replace_set)
    then show ?thesis using safe under unfolding eq list_all_iff by auto
  qed
  have len: "length (toolName contract_name fname) \<le> 64"
  proof -
    have "length (js_replace ''__'' ''_'' sanitized) \<le> length sanitized"
      by (rule js_replace_length) simp
    moreover have "length sanitized \<le> 64" by (simp add: sanitized_def)
    ultimately show ?thesis unfolding eq by simp
  qed
  have absent: "toolName contract_name fname = sanitized" if "\<not> js_includes sanitized ''__''"
    using that unfolding eq by (rule js_replace_absent)
  have first: "toolName contract_name fname = pre @ ''_'' @ post"
    if "sanitized = pre @ ''__'' @ post" "\<not> js_includes (pre @ ''_'') ''__''" for pre post
  proof -
    have "js_replace ''__'' ''_'' (pre @ ''__'' @ post) = pre @ ''_'' @ post"
      by (rule js_replace_first) (use that(2) in simp_all)
    then show ?thesis unfolding eq that(1) .
  qed
  show ?thesis
    unfolding Let_def sanitized_def [symmetric]
    using eq chars len absent first by blast
qed

theorem toolName_derivation_witness:
  "toolName ''Token'' ''balance'' = ''Token_balance''
   \<and> take 64 (map (\<lambda>c. if is_id_char c then c else CHR ''_'') (''Token'' @ '': '' @ ''balance''))
        = ''Token'' @ ''__'' @ ''balance''
   \<and> \<not> js_includes (''Token'' @ ''_'') ''__''
   \<and> list_all is_id_char (toolName ''Token'' ''balance'')
   \<and> length (toolName ''Token'' ''balance'') \<le> 64"
proof -
  have a: "take 64 (map (\<lambda>c. if is_id_char c then c else CHR ''_'') (''Token'' @ '': '' @ ''balance''))
        = ''Token'' @ ''__'' @ ''balance''"
    by (simp add: is_id_char_def)
  have b: "\<not> js_includes (''Token'' @ ''_'') ''__''"
    by simp
  have c: "toolName ''Token'' ''balance'' = ''Token'' @ ''_'' @ ''balance''
           \<and> list_all is_id_char (toolName ''Token'' ''balance'')
           \<and> length (toolName ''Token'' ''balance'') \<le> 64"
    using a b toolName_derivation [of "''Token''" "''balance''"] unfolding Let_def by blast
  have d: "toolName ''Token'' ''balance'' = ''Token_balance''"
    using c by simp
  show ?thesis using a b c d by blast
qed

text \<open>Only the leftmost double underscore is collapsed; a later one stays.\<close>

lemma toolName_later_marker_kept: "toolName ''a__b'' ''c'' = ''a_b__c''"
  by code_simp

text \<open>A contract name that the store keeps as a number enters the identifier as
  JavaScript writes that number.\<close>

lemma toolName_numeric_contract_name:
  "tool_name (contract_tool sample_env (sample_affinity ''007'') (SqlText ''CTOKEN'') (last token_funcs))
     = ''7_transfer''"
  by code_simp

end
